theory Spec2Isabelle
  imports Complex_Main "HOL-Library.Multiset"
begin

section \<open>Post-hoc calibration utilities (posthoc\_utils.py)\<close>

text \<open>
  The module holds three classes: \<open>BinaryTemperatureScaling\<close> (a temperature scalar and
  its fit), \<open>_ECELoss\<close> (the expected calibration error) and \<open>ThresholdMoving\<close> (a grid
  search for a decision threshold).

  Modelling conventions.
  \<^item> A tensor or array of \<open>N\<close> (or \<open>N\<times>1\<close>) floating-point numbers is a list
    of length \<open>N\<close>; its shape is its length. Finite floating-point numbers are read as the
    real numbers they denote and arithmetic on them is exact: rounding is outside the model.
  \<^item> In the calibration error and the threshold search, the one non-finite float the code
    can meet on finite inputs is the NaN that the mean of an empty tensor yields. A float
    that may be NaN is a \<open>real option\<close>, \<open>None\<close> being NaN; every comparison with NaN
    is false and arithmetic propagates it.
  \<^item> In the temperature calibrator, where a division by the temperature can leave the
    finite floats, a float is an \<open>xfloat\<close>: a real, an infinity or NaN. Tensors live in a
    store of addresses, with their gradient and the leaves that autograd recorded for
    them, so that what an operation writes is visible.
  \<^item> An exception is a value \<open>Inl e\<close> of a sum type.
  \<^item> The base model's forward function, the data loader, the metric function, the
    derivatives that autograd computes and the rule by which L-BFGS picks its next
    point are collaborators that the module receives; they are parameters of the
    definitions.
\<close>

subsection \<open>Errors and floats\<close>

datatype error =
    EmptyConcat       \<comment> \<open>\<open>torch.cat\<close> / \<open>np.concatenate\<close> of an empty list of tensors\<close>
  | ShapeMismatch     \<comment> \<open>operands that cannot be broadcast, or a loss whose target size differs\<close>
  | MaskIndexError    \<comment> \<open>boolean mask whose shape differs from the indexed tensor\<close>
  | IsliceValueError  \<comment> \<open>\<open>islice\<close> with a negative stop\<close>
  | EmptyArgmax       \<comment> \<open>\<open>np.argmax\<close> of an empty sequence\<close>
  | NoGradError       \<comment> \<open>\<open>backward\<close> on a tensor that depends on no tensor requiring a gradient\<close>
  | ItemError         \<comment> \<open>\<open>item\<close> of a tensor that has not exactly one element\<close>

type_synonym fval = "real option"

definition fgt :: "fval \<Rightarrow> real \<Rightarrow> bool" where
  \<comment> \<open>\<open>x.item() > y\<close>: false when \<open>x\<close> is NaN\<close>
  "fgt x y = (case x of None \<Rightarrow> False | Some v \<Rightarrow> v > y)"

definition flift2 :: "(real \<Rightarrow> real \<Rightarrow> real) \<Rightarrow> fval \<Rightarrow> fval \<Rightarrow> fval" where
  "flift2 f x y = (case x of None \<Rightarrow> None | Some a \<Rightarrow> (case y of None \<Rightarrow> None | Some b \<Rightarrow> Some (f a b)))"

definition fadd :: "fval \<Rightarrow> fval \<Rightarrow> fval" where
  "fadd = flift2 (+)"

definition fsub :: "fval \<Rightarrow> fval \<Rightarrow> fval" where
  "fsub = flift2 (-)"

definition fmul :: "fval \<Rightarrow> fval \<Rightarrow> fval" where
  "fmul = flift2 (*)"

definition fabs :: "fval \<Rightarrow> fval" where
  "fabs x = map_option abs x"

definition mean :: "real list \<Rightarrow> fval" where
  \<comment> \<open>\<open>t.mean()\<close>: NaN on an empty tensor\<close>
  "mean xs = (if xs = [] then None else Some (sum_list xs / real (length xs)))"

definition to_float :: "bool list \<Rightarrow> real list" where
  \<comment> \<open>\<open>t.float()\<close> of a boolean tensor\<close>
  "to_float bs = map of_bool bs"

definition sigmoid :: "real \<Rightarrow> real" where
  "sigmoid x = 1 / (1 + exp (- x))"

definition tensor_eq :: "bool list \<Rightarrow> real list \<Rightarrow> error + bool list" where
  \<comment> \<open>\<open>predictions.eq(labels)\<close>: elementwise, \<open>True\<close> equal to \<open>1.0\<close> and \<open>False\<close> to \<open>0.0\<close>;
      a tensor of one element is broadcast against the other\<close>
  "tensor_eq ps ls =
     (if length ps = length ls then Inr (map (\<lambda>(p, l). of_bool p = l) (zip ps ls))
      else if length ls = 1 then Inr (map (\<lambda>p. of_bool p = hd ls) ps)
      else if length ps = 1 then Inr (map (\<lambda>l. of_bool (hd ps) = l) ls)
      else Inl ShapeMismatch)"

definition masked :: "'a list \<Rightarrow> bool list \<Rightarrow> error + 'a list" where
  \<comment> \<open>\<open>t[mask]\<close>: the elements of \<open>t\<close> where the mask holds\<close>
  "masked xs msk =
     (if length xs = length msk then Inr (map fst (filter snd (zip xs msk)))
      else Inl MaskIndexError)"

subsection \<open>\<open>_ECELoss\<close>\<close>

definition linspace :: "real \<Rightarrow> real \<Rightarrow> nat \<Rightarrow> real list" where
  \<comment> \<open>\<open>torch.linspace(a, b, steps)\<close>\<close>
  "linspace a b steps =
     map (\<lambda>i. if steps = 1 then a else a + real i * ((b - a) / real (steps - 1))) [0..<steps]"

record ece_loss =
  bin_lowers :: "real list"
  bin_uppers :: "real list"

definition ECELoss_init :: "nat \<Rightarrow> ece_loss" where
  "ECELoss_init n_bins =
     (let bin_boundaries = linspace 0 1 (n_bins + 1)
      in \<lparr> bin_lowers = butlast bin_boundaries, bin_uppers = tl bin_boundaries \<rparr>)"

definition bin_update :: "real list \<Rightarrow> bool list \<Rightarrow> fval \<Rightarrow> real \<times> real \<Rightarrow> error + fval" where
  \<comment> \<open>the body of the loop over the bins\<close>
  "bin_update confidences accuracies ece b =
     (case b of (bin_lower, bin_upper) \<Rightarrow>
        let in_bin = map (\<lambda>c. bin_lower < c \<and> c \<le> bin_upper) confidences;
            prop_in_bin = mean (to_float in_bin)
        in if fgt prop_in_bin 0 then
             (case masked accuracies in_bin of
                Inl e \<Rightarrow> Inl e
              | Inr acc_sel \<Rightarrow>
                  (case masked confidences in_bin of
                     Inl e \<Rightarrow> Inl e
                   | Inr conf_sel \<Rightarrow>
                       let accuracy_in_bin = mean (to_float acc_sel);
                           avg_confidence_in_bin = mean conf_sel
                       in Inr (fadd ece
                                (fmul (fabs (fsub avg_confidence_in_bin accuracy_in_bin))
                                      prop_in_bin))))
           else Inr ece)"

fun ece_loop :: "real list \<Rightarrow> bool list \<Rightarrow> fval \<Rightarrow> (real \<times> real) list \<Rightarrow> error + fval" where
  "ece_loop confidences accuracies ece [] = Inr ece"
| "ece_loop confidences accuracies ece (b # bs) =
     (case bin_update confidences accuracies ece b of
        Inl e \<Rightarrow> Inl e
      | Inr ece' \<Rightarrow> ece_loop confidences accuracies ece' bs)"

definition forward :: "ece_loss \<Rightarrow> real list \<Rightarrow> real list \<Rightarrow> error + fval" where
  "forward self logits labels =
     (let confidences = map sigmoid logits;
          predictions = map (\<lambda>c. c > 0.5) confidences
      in case tensor_eq predictions labels of
           Inl e \<Rightarrow> Inl e
         | Inr accuracies \<Rightarrow>
             ece_loop confidences accuracies (Some 0) (zip (bin_lowers self) (bin_uppers self)))"

subsection \<open>Reference definition of the expected calibration error\<close>

text \<open>
  The calibration error as the specification words it: confidences are the sigmoids of
  the logits; the predicted class is 1 iff the confidence exceeds 0.5; a sample belongs
  to the bin with \<open>lower < confidence \<le> upper\<close> among \<open>n\<close> equal-width bins of \<open>[0, 1]\<close>;
  a non-empty bin contributes
  \<open>|avg_confidence_in_bin - accuracy_in_bin| * (bin_population / total_population)\<close>,
  an empty bin contributes 0, and the result is the sum of the contributions.
\<close>

definition spec_bins :: "nat \<Rightarrow> (real \<times> real) list" where
  "spec_bins n = map (\<lambda>i. (real i / real n, real (Suc i) / real n)) [0..<n]"

definition spec_in_bin :: "real \<times> real \<Rightarrow> real \<Rightarrow> bool" where
  "spec_in_bin b c = (fst b < c \<and> c \<le> snd b)"

definition spec_predicted_class :: "real \<Rightarrow> real" where
  "spec_predicted_class c = (if c > 0.5 then 1 else 0)"

definition spec_contribution :: "(real \<times> real) list \<Rightarrow> real \<times> real \<Rightarrow> real" where
  "spec_contribution samples b =
     (let members = filter (\<lambda>s. spec_in_bin b (fst s)) samples
      in if members = [] then 0
         else
           let correct = filter (\<lambda>s. spec_predicted_class (fst s) = snd s) members;
               accuracy_in_bin = real (length correct) / real (length members);
               avg_confidence_in_bin = sum_list (map fst members) / real (length members)
           in \<bar>avg_confidence_in_bin - accuracy_in_bin\<bar>
                * (real (length members) / real (length samples)))"

definition spec_ece :: "nat \<Rightarrow> real list \<Rightarrow> real list \<Rightarrow> real" where
  "spec_ece n logits labels =
     (let samples = zip (map sigmoid logits) labels
      in sum_list (map (spec_contribution samples) (spec_bins n)))"

subsection \<open>Floats that may leave the finite range\<close>

text \<open>
  The quotient of two floats is infinite or NaN when the divisor is zero. An \<open>xfloat\<close> is a
  finite float (read as a real; zero is \<open>+0.0\<close>), an infinity or NaN, with the arithmetic of
  IEEE 754 on these.
\<close>

datatype xfloat = Finite real | PosInf | NegInf | NaN

fun xneg :: "xfloat \<Rightarrow> xfloat" where
  "xneg (Finite a) = Finite (- a)"
| "xneg PosInf = NegInf"
| "xneg NegInf = PosInf"
| "xneg NaN = NaN"

fun xadd :: "xfloat \<Rightarrow> xfloat \<Rightarrow> xfloat" where
  "xadd (Finite a) (Finite b) = Finite (a + b)"
| "xadd NaN y = NaN"
| "xadd x NaN = NaN"
| "xadd PosInf NegInf = NaN"
| "xadd NegInf PosInf = NaN"
| "xadd (Finite a) y = y"
| "xadd x y = x"

fun xmul :: "xfloat \<Rightarrow> xfloat \<Rightarrow> xfloat" where
  "xmul (Finite a) (Finite b) = Finite (a * b)"
| "xmul NaN y = NaN"
| "xmul x NaN = NaN"
| "xmul (Finite a) y = (if a = 0 then NaN else if 0 < a then y else xneg y)"
| "xmul x (Finite b) = (if b = 0 then NaN else if 0 < b then x else xneg x)"
| "xmul PosInf y = y"
| "xmul NegInf y = xneg y"

fun xdiv :: "xfloat \<Rightarrow> xfloat \<Rightarrow> xfloat" where
  "xdiv (Finite a) (Finite b) =
     (if b \<noteq> 0 then Finite (a / b)
      else if 0 < a then PosInf else if a < 0 then NegInf else NaN)"
| "xdiv NaN y = NaN"
| "xdiv x NaN = NaN"
| "xdiv (Finite a) y = Finite 0"
| "xdiv x (Finite b) = (if b < 0 then xneg x else x)"
| "xdiv x y = NaN"

fun log_sigmoid :: "xfloat \<Rightarrow> xfloat" where
  "log_sigmoid (Finite x) = Finite (- ln (1 + exp (- x)))"
| "log_sigmoid PosInf = Finite 0"
| "log_sigmoid NegInf = NegInf"
| "log_sigmoid NaN = NaN"

definition xmean :: "xfloat list \<Rightarrow> xfloat" where
  \<comment> \<open>\<open>t.mean()\<close>: the sum over the number of elements, \<open>0 / 0\<close> on an empty tensor\<close>
  "xmean xs = xdiv (foldr xadd xs (Finite 0)) (Finite (real (length xs)))"

fun finite_data :: "xfloat list \<Rightarrow> real list option" where
  "finite_data [] = Some []"
| "finite_data (Finite x # xs) = map_option ((#) x) (finite_data xs)"
| "finite_data (x # xs) = None"

subsection \<open>Tensors, gradients and the store\<close>

text \<open>
  A tensor has its elements, its \<open>requires_grad\<close> flag, its \<open>.grad\<close> and the set of the
  leaf tensors that autograd recorded while computing it (its \<open>grad_fn\<close>, reduced to the
  leaves that \<open>backward\<close> reaches from it). The state is the store of the tensors by
  address, the first address not in use, and the gradient mode that \<open>torch.no_grad()\<close>
  switches off.
\<close>

type_synonym addr = nat

record tensor =
  data :: "xfloat list"
  requires_grad :: bool
  grad :: "xfloat list option"
  graph :: "addr set"

record state =
  store :: "addr \<Rightarrow> tensor"
  fresh :: addr
  grad_enabled :: bool

definition alloc :: "tensor \<Rightarrow> state \<Rightarrow> addr \<times> state" where
  \<comment> \<open>a new tensor, at an address not in use\<close>
  "alloc t s = (fresh s, s\<lparr>store := (store s)(fresh s := t), fresh := Suc (fresh s)\<rparr>)"

definition deps :: "state \<Rightarrow> addr \<Rightarrow> addr set" where
  \<comment> \<open>the leaves that a gradient flowing into the tensor at \<open>a\<close> reaches\<close>
  "deps s a =
     (if requires_grad (store s a) then insert a (graph (store s a)) else graph (store s a))"

definition recorded :: "state \<Rightarrow> addr list \<Rightarrow> addr set" where
  \<comment> \<open>what autograd records for the result of an operation on the tensors \<open>as\<close>:
      nothing when the gradient mode is off\<close>
  "recorded s as = (if grad_enabled s then \<Union> (deps s ` set as) else {})"

definition result_of :: "xfloat list \<Rightarrow> addr set \<Rightarrow> tensor" where
  "result_of d g = \<lparr> data = d, requires_grad = False, grad = None, graph = g \<rparr>"

definition broadcast2 :: "(xfloat \<Rightarrow> xfloat \<Rightarrow> xfloat) \<Rightarrow> xfloat list \<Rightarrow> xfloat list
    \<Rightarrow> error + xfloat list" where
  \<comment> \<open>an elementwise operation; an operand of one element is broadcast against the other\<close>
  "broadcast2 f xs ys =
     (if length ys = 1 then Inr (map (\<lambda>x. f x (hd ys)) xs)
      else if length xs = length ys then Inr (map (\<lambda>(x, y). f x y) (zip xs ys))
      else if length xs = 1 then Inr (map (\<lambda>y. f (hd xs) y) ys)
      else Inl ShapeMismatch)"

definition torch_div :: "addr \<Rightarrow> addr \<Rightarrow> state \<Rightarrow> error + (addr \<times> state)" where
  \<comment> \<open>\<open>a / b\<close>: a new tensor holds the quotients\<close>
  "torch_div a b s =
     (case broadcast2 xdiv (data (store s a)) (data (store s b)) of
        Inl e \<Rightarrow> Inl e
      | Inr d \<Rightarrow> Inr (alloc (result_of d (recorded s [a, b])) s))"

definition detach :: "addr \<Rightarrow> state \<Rightarrow> addr \<times> state" where
  \<comment> \<open>\<open>a.detach()\<close>: a new tensor with the elements of \<open>a\<close>, cut from the graph\<close>
  "detach a s = alloc (result_of (data (store s a)) {}) s"

definition torch_cat_tensors :: "addr list \<Rightarrow> state \<Rightarrow> error + (addr \<times> state)" where
  \<comment> \<open>\<open>torch.cat(ts)\<close> followed by \<open>reshape(-1, 1)\<close>: an empty list of tensors is refused\<close>
  "torch_cat_tensors ts s =
     (if ts = [] then Inl EmptyConcat
      else Inr (alloc (result_of (concat (map (\<lambda>a. data (store s a)) ts)) (recorded s ts)) s))"

definition item :: "tensor \<Rightarrow> error + xfloat" where
  "item t = (case data t of [x] \<Rightarrow> Inr x | _ \<Rightarrow> Inl ItemError)"

definition bce_with_logits :: "xfloat \<Rightarrow> real \<Rightarrow> xfloat" where
  \<comment> \<open>the loss of one logit \<open>x\<close> against its target \<open>y\<close>: \<open>(1 - y) * x - log_sigmoid(x)\<close>\<close>
  "bce_with_logits x y = xadd (xmul (Finite (1 - y)) x) (xneg (log_sigmoid x))"

definition nll_value :: "xfloat list \<Rightarrow> real list \<Rightarrow> error + xfloat" where
  \<comment> \<open>the mean of the elementwise losses; the target's size must be the input's\<close>
  "nll_value logits labels =
     (if length logits = length labels
      then Inr (xmean (map (\<lambda>(x, y). bce_with_logits x y) (zip logits labels)))
      else Inl ShapeMismatch)"

definition nll_criterion :: "addr \<Rightarrow> real list \<Rightarrow> state \<Rightarrow> error + (addr \<times> state)" where
  \<comment> \<open>\<open>nn.BCEWithLogitsLoss()\<close>: a new tensor of one element holds the loss\<close>
  "nll_criterion a labels s =
     (case nll_value (data (store s a)) labels of
        Inl e \<Rightarrow> Inl e
      | Inr v \<Rightarrow> Inr (alloc (result_of [v] (recorded s [a])) s))"

type_synonym autograd = "state \<Rightarrow> addr \<Rightarrow> addr \<Rightarrow> xfloat list"

definition accumulate :: "xfloat list \<Rightarrow> tensor \<Rightarrow> tensor" where
  \<comment> \<open>a gradient is added to \<open>.grad\<close>, or becomes it when there is none\<close>
  "accumulate g t =
     t\<lparr>grad := Some (case grad t of None \<Rightarrow> g
                      | Some old \<Rightarrow> map (\<lambda>(x, y). xadd x y) (zip old g))\<rparr>"

definition backward :: "autograd \<Rightarrow> addr \<Rightarrow> state \<Rightarrow> error + state" where
  \<comment> \<open>\<open>loss.backward()\<close>: every leaf recorded for the loss receives the derivative of the
      loss with respect to it, \<open>ag s loss a\<close>; a loss with no such leaf is refused\<close>
  "backward ag loss s =
     (if deps s loss = {} then Inl NoGradError
      else Inr (s\<lparr>store := (\<lambda>a. if a \<in> deps s loss
                                 then accumulate (ag s loss a) (store s a)
                                 else store s a)\<rparr>))"

subsection \<open>The optimizer\<close>

text \<open>
  \<open>optim.LBFGS(params, lr, max_iter)\<close> without line search. \<open>step(closure)\<close> evaluates the
  closure, then up to \<open>max_iter\<close> times writes new elements into the tensors of \<open>params\<close>
  and, except after the last write, evaluates the closure again; it stops early on its
  tolerances. It evaluates the closure with the gradient mode on, whatever the mode of
  the caller. What it reads is the loss that the closure returns and the elements and
  gradients of \<open>params\<close>. The rule that turns what it has read so far into the next
  elements, or into the decision to stop, is the parameter \<open>rule\<close>.
\<close>

type_synonym observation = "xfloat list \<times> xfloat list list \<times> xfloat list option list"

type_synonym lbfgs_rule = "real \<Rightarrow> observation list \<Rightarrow> xfloat list list option"

definition zero_grad :: "addr list \<Rightarrow> state \<Rightarrow> state" where
  \<comment> \<open>\<open>optimizer.zero_grad()\<close>: the gradients of the optimizer's tensors are dropped\<close>
  "zero_grad params s =
     s\<lparr>store := (\<lambda>a. if a \<in> set params then (store s a)\<lparr>grad := None\<rparr> else store s a)\<rparr>"

fun write_params :: "addr list \<Rightarrow> xfloat list list \<Rightarrow> state \<Rightarrow> state" where
  "write_params (p # ps) (v # vs) s =
     write_params ps vs (s\<lparr>store := (store s)(p := (store s p)\<lparr>data := v\<rparr>)\<rparr>)"
| "write_params ps vs s = s"

definition observe :: "addr \<Rightarrow> addr list \<Rightarrow> state \<Rightarrow> observation" where
  "observe loss params s =
     (data (store s loss), map (\<lambda>p. data (store s p)) params, map (\<lambda>p. grad (store s p)) params)"

definition with_grad_enabled :: "(state \<Rightarrow> 'a \<times> state) \<Rightarrow> state \<Rightarrow> 'a \<times> state" where
  \<comment> \<open>\<open>with torch.enable_grad()\<close>: the gradient mode is on in the body and restored after it\<close>
  "with_grad_enabled body s =
     (let (r, s') = body (s\<lparr>grad_enabled := True\<rparr>) in (r, s'\<lparr>grad_enabled := grad_enabled s\<rparr>))"

fun lbfgs_iterate :: "lbfgs_rule \<Rightarrow> real \<Rightarrow> (state \<Rightarrow> (error + addr) \<times> state) \<Rightarrow> addr list
    \<Rightarrow> nat \<Rightarrow> observation list \<Rightarrow> state \<Rightarrow> error option \<times> state" where
  "lbfgs_iterate rule lr closure params 0 seen s = (None, s)"
| "lbfgs_iterate rule lr closure params (Suc n) seen s =
     (case with_grad_enabled closure s of
        (Inl e, s1) \<Rightarrow> (Some e, s1)
      | (Inr loss, s1) \<Rightarrow>
          let seen' = seen @ [observe loss params s1]
          in (case rule lr seen' of
                None \<Rightarrow> (None, s1)
              | Some vs \<Rightarrow> lbfgs_iterate rule lr closure params n seen' (write_params params vs s1)))"

definition lbfgs_step :: "lbfgs_rule \<Rightarrow> addr list \<Rightarrow> real \<Rightarrow> nat
    \<Rightarrow> (state \<Rightarrow> (error + addr) \<times> state) \<Rightarrow> state \<Rightarrow> error option \<times> state" where
  "lbfgs_step rule params lr max_iter closure s = lbfgs_iterate rule lr closure params max_iter [] s"

subsection \<open>\<open>BinaryTemperatureScaling\<close>\<close>

text \<open>
  The base model is the list of the addresses of its parameters and its forward function,
  from the elements of the parameters and a batch of inputs to the logits. A forward
  pass reads the parameters and builds a new tensor, for which autograd records the
  parameters when the gradient mode is on.
\<close>

record 'i module =
  parameters :: "addr list"
  forward_fn :: "xfloat list list \<Rightarrow> 'i \<Rightarrow> xfloat list"

record 'i calibrator =
  model :: "'i module"
  temperature :: addr

definition model_forward :: "'i module \<Rightarrow> 'i \<Rightarrow> state \<Rightarrow> addr \<times> state" where
  "model_forward m inputs s =
     alloc (result_of (forward_fn m (map (\<lambda>p. data (store s p)) (parameters m)) inputs)
                      (recorded s (parameters m))) s"

definition BinaryTemperatureScaling_init :: "'i module \<Rightarrow> state \<Rightarrow> 'i calibrator \<times> state" where
  \<comment> \<open>\<open>torch.tensor(1.5, requires_grad=True)\<close>\<close>
  "BinaryTemperatureScaling_init m s =
     (let (t, s') = alloc \<lparr> data = [Finite 1.5], requires_grad = True, grad = None, graph = {} \<rparr> s
      in (\<lparr> model = m, temperature = t \<rparr>, s'))"

definition temperature_scale :: "'i calibrator \<Rightarrow> addr \<Rightarrow> state \<Rightarrow> error + (addr \<times> state)" where
  \<comment> \<open>\<open>return logits / self.temperature\<close>\<close>
  "temperature_scale self logits s = torch_div logits (temperature self) s"

definition py_int :: "real \<Rightarrow> int" where
  \<comment> \<open>\<open>int(x)\<close> of a float: truncation towards zero\<close>
  "py_int x = (if 0 \<le> x then \<lfloor>x\<rfloor> else \<lceil>x\<rceil>)"

definition batch_limit :: "'a list \<Rightarrow> real \<Rightarrow> int" where
  "batch_limit val_loader val_fraction = py_int (real (length val_loader) * val_fraction)"

definition islice :: "'a list \<Rightarrow> int \<Rightarrow> error + 'a list" where
  \<comment> \<open>\<open>islice(it, stop)\<close>: the first \<open>stop\<close> items; the stop must lie in \<open>0 .. sys.maxsize\<close>\<close>
  "islice xs stop =
     (if stop < 0 \<or> stop > 2 ^ 63 - 1 then Inl IsliceValueError
      else Inr (take (nat stop) xs))"

definition torch_cat :: "'a list list \<Rightarrow> error + 'a list" where
  \<comment> \<open>\<open>torch.cat(ts)\<close> followed by \<open>reshape(-1, 1)\<close>, on tensors kept as values:
      an empty list of tensors is refused\<close>
  "torch_cat ts = (if ts = [] then Inl EmptyConcat else Inr (concat ts))"

definition np_concatenate :: "'a list list \<Rightarrow> error + 'a list" where
  \<comment> \<open>\<open>np.concatenate(ts, axis=None)\<close>: the flattened arrays in a row; an empty list is refused\<close>
  "np_concatenate ts = (if ts = [] then Inl EmptyConcat else Inr (concat ts))"

text \<open>
  \<open>calibrate\<close>. The loader is the list of its batches in the order of iteration, a batch
  being the pair of its inputs and its labels. The labels are never written and carry no
  graph; they are kept as values. The two log lines are not kept; the losses they report
  are computed, since computing them can raise. The calibration error is the real-valued
  \<open>forward\<close>; on logits that are not all finite its value is outside the model, and it
  raises nothing there, since the loss before it has checked the sizes. The result pairs
  what the call returns or raises with the state after the call.
\<close>

fun collect_logits :: "'i calibrator \<Rightarrow> ('i \<times> real list) list \<Rightarrow> state \<Rightarrow> addr list \<times> state" where
  \<comment> \<open>the loop \<open>logits = self.model(inputs).detach(); logits_list.append(logits)\<close>\<close>
  "collect_logits self [] s = ([], s)"
| "collect_logits self (b # bs) s =
     (let (out, s1) = model_forward (model self) (fst b) s;
          (logits, s2) = detach out s1;
          (rest, s3) = collect_logits self bs s2
      in (logits # rest, s3))"

definition ece_criterion :: "addr \<Rightarrow> real list \<Rightarrow> state \<Rightarrow> error option" where
  "ece_criterion a labels s =
     (case finite_data (data (store s a)) of
        None \<Rightarrow> None
      | Some logits \<Rightarrow>
          (case forward (ECELoss_init 15) logits labels of Inl e \<Rightarrow> Some e | Inr ece \<Rightarrow> None))"

definition eval_closure :: "autograd \<Rightarrow> 'i calibrator \<Rightarrow> addr \<Rightarrow> real list \<Rightarrow> addr list \<Rightarrow> state
    \<Rightarrow> (error + addr) \<times> state" where
  \<comment> \<open>the closure \<open>eval\<close>: \<open>zero_grad\<close>, the loss of the scaled logits, \<open>backward\<close>\<close>
  "eval_closure ag self logits labels params s =
     (let s1 = zero_grad params s
      in case temperature_scale self logits s1 of
           Inl e \<Rightarrow> (Inl e, s1)
         | Inr (scaled, s2) \<Rightarrow>
             (case nll_criterion scaled labels s2 of
                Inl e \<Rightarrow> (Inl e, s2)
              | Inr (loss, s3) \<Rightarrow>
                  (case backward ag loss s3 of
                     Inl e \<Rightarrow> (Inl e, s3)
                   | Inr s4 \<Rightarrow> (Inr loss, s4))))"

definition after_report :: "'i calibrator \<Rightarrow> addr \<Rightarrow> real list \<Rightarrow> state \<Rightarrow> error option \<times> state" where
  \<comment> \<open>the NLL and the ECE of the scaled logits, each on its own \<open>temperature_scale\<close>\<close>
  "after_report self logits labels s =
     (case temperature_scale self logits s of
        Inl e \<Rightarrow> (Some e, s)
      | Inr (scaled, s1) \<Rightarrow>
          (case nll_criterion scaled labels s1 of
             Inl e \<Rightarrow> (Some e, s1)
           | Inr (nll, s2) \<Rightarrow>
               (case temperature_scale self logits s2 of
                  Inl e \<Rightarrow> (Some e, s2)
                | Inr (scaled', s3) \<Rightarrow> (ece_criterion scaled' labels s3, s3))))"

definition optimize :: "lbfgs_rule \<Rightarrow> autograd \<Rightarrow> 'i calibrator \<Rightarrow> addr \<Rightarrow> real list \<Rightarrow> state
    \<Rightarrow> (error + xfloat) \<times> state" where
  \<comment> \<open>the part of \<open>calibrate\<close> after the logits and labels are collected\<close>
  "optimize rule ag self logits labels s =
     (case nll_criterion logits labels s of
        Inl e \<Rightarrow> (Inl e, s)
      | Inr (nll, s1) \<Rightarrow>
          (case ece_criterion logits labels s1 of
             Some e \<Rightarrow> (Inl e, s1)
           | None \<Rightarrow>
               let params = [temperature self];
                   (raised, s2) = lbfgs_step rule params (1 / 100) 50
                                    (eval_closure ag self logits labels params) s1
               in (case raised of
                     Some e \<Rightarrow> (Inl e, s2)
                   | None \<Rightarrow>
                       (case after_report self logits labels s2 of
                          (Some e, s3) \<Rightarrow> (Inl e, s3)
                        | (None, s3) \<Rightarrow> (item (store s3 (temperature self)), s3)))))"

definition calibrate :: "lbfgs_rule \<Rightarrow> autograd \<Rightarrow> 'i calibrator \<Rightarrow> ('i \<times> real list) list \<Rightarrow> real
    \<Rightarrow> state \<Rightarrow> (error + xfloat) \<times> state" where
  "calibrate rule ag self val_loader val_fraction s =
     (let prev = grad_enabled s;
          s0 = s\<lparr>grad_enabled := False\<rparr>
      in case islice val_loader (batch_limit val_loader val_fraction) of
           Inl e \<Rightarrow> (Inl e, s0\<lparr>grad_enabled := prev\<rparr>)
         | Inr batches \<Rightarrow>
             let (logits_list, s1) = collect_logits self batches s0;
                 labels_list = map snd batches
             in (case torch_cat_tensors logits_list s1 of
                   Inl e \<Rightarrow> (Inl e, s1\<lparr>grad_enabled := prev\<rparr>)
                 | Inr (logits, s2) \<Rightarrow>
                     (case torch_cat labels_list of
                        Inl e \<Rightarrow> (Inl e, s2\<lparr>grad_enabled := prev\<rparr>)
                      | Inr labels \<Rightarrow>
                          optimize rule ag self logits labels (s2\<lparr>grad_enabled := prev\<rparr>))))"

subsection \<open>\<open>ThresholdMoving\<close>\<close>

definition to_labels :: "real list \<Rightarrow> real \<Rightarrow> int list" where
  \<comment> \<open>\<open>(pos_probs >= threshold).astype('int')\<close>\<close>
  "to_labels pos_probs threshold = map (\<lambda>b. if b then 1 else 0) (map (\<lambda>p. p \<ge> threshold) pos_probs)"

definition np_arange :: "real \<Rightarrow> real \<Rightarrow> real \<Rightarrow> real list" where
  \<comment> \<open>\<open>np.arange(start, stop, step)\<close>: \<open>ceil((stop - start) / step)\<close> values \<open>start + i * step\<close>\<close>
  "np_arange start stop step =
     map (\<lambda>i. start + real i * step) [0..<nat \<lceil>(stop - start) / step\<rceil>]"

fun argmax_loop :: "nat \<Rightarrow> real \<Rightarrow> nat \<Rightarrow> real list \<Rightarrow> nat" where
  "argmax_loop best_i best i [] = best_i"
| "argmax_loop best_i best i (x # xs) =
     (if x > best then argmax_loop i x (Suc i) xs else argmax_loop best_i best (Suc i) xs)"

definition np_argmax :: "real list \<Rightarrow> error + nat" where
  \<comment> \<open>\<open>np.argmax\<close>: the index of the first occurrence of the maximum\<close>
  "np_argmax xs = (case xs of [] \<Rightarrow> Inl EmptyArgmax | x # rest \<Rightarrow> Inr (argmax_loop 0 x 1 rest))"

definition thresholds :: "real list" where
  "thresholds = np_arange 0 1 (1 / 1000)"

definition collect_probs :: "('m \<Rightarrow> 'i \<Rightarrow> real list) \<Rightarrow> 'm \<Rightarrow> ('i \<times> real list) list
    \<Rightarrow> real \<Rightarrow> error + (real list \<times> real list)" where
  "collect_probs calibrated_forward m val_loader val_fraction =
     (case islice val_loader (batch_limit val_loader val_fraction) of
        Inl e \<Rightarrow> Inl e
      | Inr batches \<Rightarrow>
          let logits = map (\<lambda>(inputs, label). map sigmoid (calibrated_forward m inputs)) batches;
              labels = map (\<lambda>(inputs, label). label) batches
          in (case np_concatenate logits of
                Inl e \<Rightarrow> Inl e
              | Inr logits \<Rightarrow>
                  (case np_concatenate labels of
                     Inl e \<Rightarrow> Inl e
                   | Inr labels \<Rightarrow> Inr (logits, labels))))"

definition search_threshold :: "('m \<Rightarrow> 'i \<Rightarrow> real list) \<Rightarrow> 'm \<Rightarrow> (real list \<Rightarrow> int list \<Rightarrow> real)
    \<Rightarrow> ('i \<times> real list) list \<Rightarrow> real \<Rightarrow> error + real" where
  "search_threshold calibrated_forward m max_metric val_loader val_fraction =
     (case collect_probs calibrated_forward m val_loader val_fraction of
        Inl e \<Rightarrow> Inl e
      | Inr (logits, labels) \<Rightarrow>
          let scores = map (\<lambda>t. max_metric labels (to_labels logits t)) thresholds
          in (case np_argmax scores of
                Inl e \<Rightarrow> Inl e
              | Inr ix \<Rightarrow> Inr (thresholds ! ix)))"

subsection \<open>What a call may write\<close>

text \<open>
  \<open>changes_only t s s'\<close>: from \<open>s\<close> to \<open>s'\<close> every tensor that exists in \<open>s\<close>, except the
  one at \<open>t\<close>, is the same in every field; the tensor at \<open>t\<close> keeps its graph and its
  \<open>requires_grad\<close> flag; no address is given up and the gradient mode is the same.
\<close>

definition changes_only :: "addr \<Rightarrow> state \<Rightarrow> state \<Rightarrow> bool" where
  "changes_only t s s' \<longleftrightarrow>
     (\<forall>a. a < fresh s \<longrightarrow>
        (a \<noteq> t \<longrightarrow> store s' a = store s a)
        \<and> graph (store s' a) = graph (store s a)
        \<and> requires_grad (store s' a) = requires_grad (store s a))
     \<and> fresh s \<le> fresh s' \<and> grad_enabled s' = grad_enabled s"

text \<open>
  \<open>ready t l s\<close>: the tensors at \<open>t\<close> and \<open>l\<close> exist, no gradient flows through the one at
  \<open>l\<close>, and the one at \<open>t\<close> is a leaf.
\<close>

definition ready :: "addr \<Rightarrow> addr \<Rightarrow> state \<Rightarrow> bool" where
  "ready t l s \<longleftrightarrow> t < fresh s \<and> l < fresh s \<and> deps s l = {} \<and> graph (store s t) = {}"

section \<open>Properties of the expected calibration error\<close>

lemma linspace_unit: "linspace 0 1 (Suc n) = map (\<lambda>i. real i / real n) [0..<Suc n]"
  unfolding linspace_def by (cases "n = 0") (auto simp: field_simps)

lemma butlast_map_upt: "butlast (map f [0..<Suc n]) = map f [0..<n]"
  by (simp add: map_butlast[symmetric])

lemma tl_map_upt: "tl (map f [0..<Suc n]) = map (\<lambda>i. f (Suc i)) [0..<n]"
  by (simp add: map_tl[symmetric] map_Suc_upt[symmetric] upt_conv_Cons del: upt_Suc)

lemma zip_map_same: "zip (map f xs) (map g xs) = map (\<lambda>x. (f x, g x)) xs"
  by (induction xs) auto

lemma bins_eq_spec_bins:
  "zip (bin_lowers (ECELoss_init n)) (bin_uppers (ECELoss_init n)) = spec_bins n"
  unfolding ECELoss_init_def Let_def spec_bins_def
  by (simp add: linspace_unit butlast_map_upt tl_map_upt zip_map_same del: upt_Suc)

lemma masked_map: "masked (map f xs) (map g xs) = Inr (map f (filter g xs))"
  unfolding masked_def by (induction xs) auto

lemma sum_of_bool_filter: "sum_list (map (of_bool \<circ> P) xs) = real (length (filter P xs))"
  by (induction xs) auto

lemma mean_mask:
  "mean (to_float (map P xs)) = (if xs = [] then None else Some (real (length (filter P xs)) / real (length xs)))"
  unfolding mean_def to_float_def by (simp add: sum_of_bool_filter)


lemma mean_Some: "xs \<noteq> [] \<Longrightarrow> mean xs = Some (sum_list xs / real (length xs))"
  by (simp add: mean_def)

lemma bin_update_samples:
  "bin_update (map fst samples) (map f samples) (Some e) b
     = Inr (Some (e + (let members = filter (\<lambda>s. spec_in_bin b (fst s)) samples
      in if members = [] then 0
         else
           let correct = filter f members;
               accuracy_in_bin = real (length correct) / real (length members);
               avg_confidence_in_bin = sum_list (map fst members) / real (length members)
           in \<bar>avg_confidence_in_bin - accuracy_in_bin\<bar>
                * (real (length members) / real (length samples)))))"
proof -
  obtain lo up where b: "b = (lo, up)" by (cases b)
  let ?P = "\<lambda>s. lo < fst s \<and> fst s \<le> up"
  let ?ms = "filter ?P samples"
  have inb: "map (\<lambda>c. lo < c \<and> c \<le> up) (map fst samples) = map ?P samples" by simp
  have upd: "bin_update (map fst samples) (map f samples) (Some e) (lo, up) =
      (if fgt (mean (to_float (map ?P samples))) 0 then
         (case masked (map f samples) (map ?P samples) of
            Inl x \<Rightarrow> Inl x
          | Inr acc_sel \<Rightarrow>
              (case masked (map fst samples) (map ?P samples) of
                 Inl x \<Rightarrow> Inl x
               | Inr conf_sel \<Rightarrow>
                   Inr (fadd (Some e)
                         (fmul (fabs (fsub (mean conf_sel) (mean (to_float acc_sel))))
                               (mean (to_float (map ?P samples)))))))
       else Inr (Some e))"
    unfolding bin_update_def Let_def prod.case inb ..
  show ?thesis
  proof (cases "?ms = []")
    case True
    then have "\<not> fgt (mean (to_float (map ?P samples))) 0"
      by (simp add: mean_mask fgt_def)
    with True show ?thesis
      unfolding b upd spec_in_bin_def by (simp add: Let_def)
  next
    case False
    then have ne: "samples \<noteq> []" by auto
    with False have "fgt (mean (to_float (map ?P samples))) 0"
      by (simp add: mean_mask fgt_def)
    moreover have "mean (to_float (map f ?ms)) = Some (real (length (filter f ?ms)) / real (length ?ms))"
      using False by (simp add: mean_mask)
    moreover have "mean (map fst ?ms) = Some (sum_list (map fst ?ms) / real (length ?ms))"
      using False by (simp add: mean_Some)
    moreover have "mean (to_float (map ?P samples)) = Some (real (length ?ms) / real (length samples))"
      using ne by (simp add: mean_mask)
    ultimately show ?thesis
      using False unfolding b upd spec_in_bin_def masked_map
      by (simp add: Let_def fadd_def fmul_def fsub_def fabs_def flift2_def)
  qed
qed


lemma bin_update_spec:
  "bin_update (map fst samples) (map (\<lambda>s. spec_predicted_class (fst s) = snd s) samples) (Some e) b
     = Inr (Some (e + spec_contribution samples b))"
  unfolding spec_contribution_def by (rule bin_update_samples)

lemma ece_loop_spec:
  "ece_loop (map fst samples) (map (\<lambda>s. spec_predicted_class (fst s) = snd s) samples) (Some e) bs
     = Inr (Some (e + sum_list (map (spec_contribution samples) bs)))"
  by (induction bs arbitrary: e) (simp_all add: bin_update_spec add.assoc)

lemma tensor_eq_samples:
  assumes "length cs = length ls"
  shows "tensor_eq (map (\<lambda>c. c > 0.5) cs) ls
           = Inr (map (\<lambda>s. spec_predicted_class (fst s) = snd s) (zip cs ls))"
proof -
  have "map (\<lambda>(p, l). of_bool p = l) (zip (map (\<lambda>c. c > 0.5) cs) ls)
          = map (\<lambda>s. spec_predicted_class (fst s) = snd s) (zip cs ls)"
    using assms by (induction cs ls rule: list_induct2) (auto simp: spec_predicted_class_def)
  moreover have "length (map (\<lambda>c. c > 0.5) cs) = length ls"
    using assms by simp
  ultimately show ?thesis
    unfolding tensor_eq_def by (simp only: if_True refl)
qed

lemma forward_spec:
  assumes "length logits = length labels"
  shows "forward (ECELoss_init n) logits labels = Inr (Some (spec_ece n logits labels))"
proof -
  let ?samples = "zip (map sigmoid logits) labels"
  have fst: "map sigmoid logits = map fst ?samples"
    using assms by simp
  have "forward (ECELoss_init n) logits labels
      = ece_loop (map sigmoid logits) (map (\<lambda>s. spec_predicted_class (fst s) = snd s) ?samples)
          (Some 0) (spec_bins n)"
  proof -
    have "length (map sigmoid logits) = length labels" using assms by simp
    then show ?thesis
      unfolding forward_def Let_def bins_eq_spec_bins
      by (simp only: tensor_eq_samples sum.case)
  qed
  also have "\<dots> = ece_loop (map fst ?samples) (map (\<lambda>s. spec_predicted_class (fst s) = snd s) ?samples)
          (Some 0) (spec_bins n)"
    using fst by simp
  also have "\<dots> = Inr (Some (spec_ece n logits labels))"
    unfolding ece_loop_spec spec_ece_def Let_def by simp
  finally show ?thesis .
qed

lemma sigmoid_bounds: "0 < sigmoid x \<and> sigmoid x < 1"
proof -
  have e: "0 < exp (- x)" by simp
  then have pos: "0 < 1 + exp (- x)" by linarith
  from e have "1 < 1 + exp (- x)" by linarith
  then have "1 / (1 + exp (- x)) < 1" by (simp only: divide_less_eq_1_pos[OF pos])
  with pos show ?thesis unfolding sigmoid_def by simp
qed

lemma sum_list_bounds:
  assumes "\<forall>x \<in> set xs. 0 \<le> x \<and> x \<le> (1::real)"
  shows "0 \<le> sum_list xs \<and> sum_list xs \<le> real (length xs)"
  using assms by (induction xs) auto

lemma spec_contribution_nonneg: "0 \<le> spec_contribution samples b"
  unfolding spec_contribution_def Let_def by simp

lemma spec_contribution_le:
  assumes "\<forall>s \<in> set samples. 0 \<le> fst s \<and> fst s \<le> 1"
  shows "spec_contribution samples b
           \<le> real (length (filter (\<lambda>s. spec_in_bin b (fst s)) samples)) / real (length samples)"
proof -
  let ?ms = "filter (\<lambda>s. spec_in_bin b (fst s)) samples"
  show ?thesis
  proof (cases "?ms = []")
    case True
    then show ?thesis unfolding spec_contribution_def Let_def by simp
  next
    case False
    let ?k = "real (length ?ms)"
    let ?acc = "real (length (filter (\<lambda>s. spec_predicted_class (fst s) = snd s) ?ms)) / ?k"
    let ?avg = "sum_list (map fst ?ms) / ?k"
    have k: "0 < ?k" using False by simp
    have "length (filter (\<lambda>s. spec_predicted_class (fst s) = snd s) ?ms) \<le> length ?ms"
      by (rule length_filter_le)
    then have acc: "0 \<le> ?acc \<and> ?acc \<le> 1" using k by simp
    have "\<forall>x \<in> set (map fst ?ms). 0 \<le> x \<and> x \<le> 1" using assms by auto
    from sum_list_bounds[OF this] have avg: "0 \<le> ?avg \<and> ?avg \<le> 1"
      using k by (simp add: field_simps)
    have gap: "\<bar>?avg - ?acc\<bar> \<le> 1" using acc avg by linarith
    have w: "0 \<le> ?k / real (length samples)" by simp
    have "\<bar>?avg - ?acc\<bar> * (?k / real (length samples)) \<le> 1 * (?k / real (length samples))"
      by (rule mult_right_mono[OF gap w])
    then show ?thesis using False unfolding spec_contribution_def Let_def by simp
  qed
qed

lemma at_most_one:
  assumes "distinct (is :: nat list)" and "\<And>i j. Q i \<Longrightarrow> Q j \<Longrightarrow> i = j"
  shows "length (filter Q is) \<le> 1"
  using assms(1)
proof (induction "is")
  case Nil
  then show ?case by simp
next
  case (Cons i "is")
  show ?case
  proof (cases "Q i")
    case True
    have "filter Q is = []"
      using Cons.prems True assms(2) by (auto simp: filter_empty_conv)
    with True show ?thesis by simp
  next
    case False
    with Cons show ?thesis by simp
  qed
qed

lemma bins_disjoint:
  assumes "real i / real n < c" "c \<le> real (Suc i) / real n"
      and "real j / real n < c" "c \<le> real (Suc j) / real n"
  shows "i = j"
proof (rule ccontr)
  assume ne: "i \<noteq> j"
  have n: "0 < real n"
  proof (rule ccontr)
    assume "\<not> 0 < real n"
    then have "n = 0" by simp
    with assms show False by simp
  qed
  have less: "\<And>a b. a < b \<Longrightarrow> real a / real n < c \<Longrightarrow> c \<le> real (Suc a) / real n
      \<Longrightarrow> real b / real n < c \<Longrightarrow> False"
  proof -
    fix a b :: nat
    assume ab: "a < b" and 1: "c \<le> real (Suc a) / real n" and 2: "real b / real n < c"
    from ab have "real (Suc a) \<le> real b" by simp
    then have "real (Suc a) / real n \<le> real b / real n"
      using n by (simp add: divide_right_mono)
    with 1 2 show False by linarith
  qed
  from ne have "i < j \<or> j < i" by auto
  then show False using less assms by blast
qed

lemma members_of_bins_le:
  "(\<Sum>b\<leftarrow>spec_bins n. length (filter (\<lambda>s. spec_in_bin b (fst s)) samples)) \<le> length samples"
proof (induction samples)
  case Nil
  then show ?case by simp
next
  case (Cons s samples)
  have one: "(\<Sum>b\<leftarrow>spec_bins n. (if spec_in_bin b (fst s) then 1 else 0)) \<le> (1::nat)"
  proof -
    let ?Q = "\<lambda>i. real i / real n < fst s \<and> fst s \<le> real (Suc i) / real n"
    have "(\<Sum>b\<leftarrow>spec_bins n. (if spec_in_bin b (fst s) then 1 else 0)) = length (filter ?Q [0..<n])"
      unfolding spec_bins_def spec_in_bin_def
      by (simp add: comp_def sum_list_map_filter'[symmetric] sum_list_triv del: upt_Suc) 
    also have "\<dots> \<le> 1"
      by (rule at_most_one) (auto dest: bins_disjoint)
    finally show ?thesis .
  qed
  have "(\<Sum>b\<leftarrow>spec_bins n. length (filter (\<lambda>s. spec_in_bin b (fst s)) (s # samples)))
      = (\<Sum>b\<leftarrow>spec_bins n. (if spec_in_bin b (fst s) then 1 else 0)
            + length (filter (\<lambda>s. spec_in_bin b (fst s)) samples))"
    by (rule arg_cong[where f = sum_list]) (rule map_cong, simp_all)
  also have "\<dots> = (\<Sum>b\<leftarrow>spec_bins n. (if spec_in_bin b (fst s) then 1 else 0))
            + (\<Sum>b\<leftarrow>spec_bins n. length (filter (\<lambda>s. spec_in_bin b (fst s)) samples))"
    by (rule sum_list_addf)
  finally show ?case using one Cons.IH by simp
qed


lemma sum_list_real_div:
  "(\<Sum>b\<leftarrow>bs. real (f b) / c) = real (\<Sum>b\<leftarrow>bs. f b) / c"
  by (induction bs) (simp_all add: add_divide_distrib)

lemma spec_ece_bounds: "0 \<le> spec_ece n logits labels \<and> spec_ece n logits labels \<le> 1"
proof -
  let ?samples = "zip (map sigmoid logits) labels"
  let ?len = "\<lambda>b. length (filter (\<lambda>s. spec_in_bin b (fst s)) ?samples)"
  have rng: "\<forall>s \<in> set ?samples. 0 \<le> fst s \<and> fst s \<le> 1"
  proof
    fix s assume "s \<in> set ?samples"
    then have "(fst s, snd s) \<in> set ?samples" by simp
    then have "fst s \<in> set (map sigmoid logits)" by (rule set_zip_leftD)
    then obtain x where "fst s = sigmoid x" by auto
    with sigmoid_bounds[of x] show "0 \<le> fst s \<and> fst s \<le> 1" by simp
  qed
  have lower: "0 \<le> spec_ece n logits labels"
    unfolding spec_ece_def Let_def
    by (rule sum_list_nonneg) (auto simp: spec_contribution_nonneg)
  have "spec_ece n logits labels \<le> (\<Sum>b\<leftarrow>spec_bins n. real (?len b) / real (length ?samples))"
    unfolding spec_ece_def Let_def
    by (rule sum_list_mono) (rule spec_contribution_le[OF rng])
  also have "\<dots> = real (\<Sum>b\<leftarrow>spec_bins n. ?len b) / real (length ?samples)"
    by (rule sum_list_real_div)
  also have "\<dots> \<le> 1"
  proof (cases "length ?samples = 0")
    case True
    then show ?thesis by simp
  next
    case False
    have "real (\<Sum>b\<leftarrow>spec_bins n. ?len b) \<le> real (length ?samples)"
      using members_of_bins_le[where n = n and samples = ?samples] by (simp only: of_nat_le_iff)
    with False show ?thesis by (simp add: divide_le_eq_1)
  qed
  finally show ?thesis using lower by simp
qed

lemma spec_contribution_mset:
  assumes "mset xs = mset ys"
  shows "spec_contribution xs b = spec_contribution ys b"
proof -
  let ?P = "\<lambda>s. spec_in_bin b (fst s)"
  let ?C = "\<lambda>s::real \<times> real. spec_predicted_class (fst s) = snd s"
  have ms: "mset (filter ?P xs) = mset (filter ?P ys)"
    using assms by (simp only: mset_filter)
  then have cs: "mset (filter ?C (filter ?P xs)) = mset (filter ?C (filter ?P ys))"
    by (simp only: mset_filter)
  have l0: "length xs = length ys" using assms by (rule mset_eq_length)
  have l1: "length (filter ?P xs) = length (filter ?P ys)" using ms by (rule mset_eq_length)
  have l2: "length (filter ?C (filter ?P xs)) = length (filter ?C (filter ?P ys))"
    using cs by (rule mset_eq_length)
  have "mset (map fst (filter ?P xs)) = mset (map fst (filter ?P ys))"
    using ms by (simp only: mset_map)
  then have "sum_mset (mset (map fst (filter ?P xs))) = sum_mset (mset (map fst (filter ?P ys)))"
    by (rule arg_cong)
  then have sm: "sum_list (map fst (filter ?P xs)) = sum_list (map fst (filter ?P ys))"
    by (simp only: sum_mset_sum_list)
  have e: "filter ?P xs = [] \<longleftrightarrow> filter ?P ys = []"
    using l1 by (metis length_0_conv)
  show ?thesis
    unfolding spec_contribution_def Let_def by (simp only: l0 l1 l2 sm e)
qed

lemma spec_ece_perm:
  assumes "mset (zip (map sigmoid xs) ls) = mset (zip (map sigmoid ys) ms)"
  shows "spec_ece n xs ls = spec_ece n ys ms"
  unfolding spec_ece_def Let_def
  by (rule arg_cong[where f = sum_list], rule map_cong, rule refl)
     (rule spec_contribution_mset[OF assms])

lemma permuted_zip:
  assumes len: "length xs = length ys" and p: "mset p = mset [0..<length xs]"
  shows "mset (zip (map f (map ((!) xs) p)) (map ((!) ys) p)) = mset (zip (map f xs) ys)"
proof -
  let ?h = "\<lambda>i. (f (xs ! i), ys ! i)"
  have "zip (map f (map ((!) xs) p)) (map ((!) ys) p) = map ?h p"
    by (induction p) auto
  then have "mset (zip (map f (map ((!) xs) p)) (map ((!) ys) p)) = image_mset ?h (mset p)"
    by simp
  also have "\<dots> = mset (map ?h [0..<length xs])"
    unfolding p by simp
  also have "map ?h [0..<length xs] = zip (map f xs) ys"
    using len by (intro nth_equalityI) auto
  finally show ?thesis .
qed

lemma ece_loop_empty: "ece_loop [] [] ece bs = Inr ece"
  by (induction bs) (auto simp: bin_update_def mean_def to_float_def fgt_def)

lemma forward_empty: "forward self [] [] = Inr (Some 0)"
  unfolding forward_def Let_def by (simp add: tensor_eq_def ece_loop_empty)


text \<open>
  Claim C1. For logits and labels of the same length, \<open>forward\<close> of an \<open>_ECELoss\<close> built
  with \<open>n_bins\<close> bins returns the reference calibration error \<open>spec_ece\<close>: sigmoid
  confidences, predicted class 1 iff the confidence exceeds 0.5, bins
  \<open>lower < confidence \<le> upper\<close> over \<open>n_bins\<close> equal-width bins of \<open>[0, 1]\<close>, a non-empty
  bin contributing \<open>|avg_confidence_in_bin - accuracy_in_bin| * (bin_population / total_population)\<close>,
  an empty bin 0, the result being the sum. The bins of the loss are the equal-width bins
  of the reference, and a confidence of exactly 0 belongs to none of them.
\<close>
theorem ece_forward_refines_spec:
  assumes "length logits = length labels"
  shows "forward (ECELoss_init n_bins) logits labels = Inr (Some (spec_ece n_bins logits labels))
       \<and> zip (bin_lowers (ECELoss_init n_bins)) (bin_uppers (ECELoss_init n_bins)) = spec_bins n_bins
       \<and> (\<forall>b \<in> set (zip (bin_lowers (ECELoss_init n_bins)) (bin_uppers (ECELoss_init n_bins))).
             \<not> (fst b < 0 \<and> 0 \<le> snd b))"
proof -
  have "\<forall>b \<in> set (spec_bins n_bins). \<not> (fst b < 0 \<and> 0 \<le> snd b)"
    unfolding spec_bins_def by (auto simp: not_less)
  then show ?thesis
    using forward_spec[OF assms] bins_eq_spec_bins by simp
qed

lemma sigmoid_0: "sigmoid 0 = 1 / 2"
  unfolding sigmoid_def by simp

lemma spec_bins_2: "spec_bins 2 = [(0, 1 / 2), (1 / 2, 1)]"
  unfolding spec_bins_def by (simp add: upt_conv_Cons numeral_2_eq_2)

theorem ece_forward_refines_spec_witness:
  "length [0, 0 :: real] = length [1, 1 :: real]
   \<and> forward (ECELoss_init 2) [0, 0] [1, 1] = Inr (Some (1 / 2))
   \<and> zip (bin_lowers (ECELoss_init 2)) (bin_uppers (ECELoss_init 2)) = [(0, 1 / 2), (1 / 2, 1)]"
proof -
  have len: "length [0, 0 :: real] = length [1, 1 :: real]" by simp
  have val: "spec_ece 2 [0, 0] [1, 1] = 1 / 2"
    unfolding spec_ece_def Let_def spec_bins_2
    by (simp add: spec_contribution_def spec_in_bin_def spec_predicted_class_def sigmoid_0)
  show ?thesis
    using ece_forward_refines_spec[OF len, of 2] val by (simp add: spec_bins_2)
qed

text \<open>
  Claim C7. For logits and labels of the same length, the scalar that \<open>forward\<close> returns is
  a number (not NaN) in the closed interval \<open>[0, 1]\<close>; in particular it is not negative.
\<close>
theorem ece_in_unit_interval:
  assumes "length logits = length labels"
  shows "\<exists>e. forward (ECELoss_init n_bins) logits labels = Inr (Some e) \<and> 0 \<le> e \<and> e \<le> 1"
  using forward_spec[OF assms] spec_ece_bounds by blast

theorem ece_in_unit_interval_witness:
  "\<exists>e. forward (ECELoss_init 15) [0, 0] [1, 0] = Inr (Some e) \<and> 0 \<le> e \<and> e \<le> 1"
proof -
  have len: "length [0, 0 :: real] = length [1, 0 :: real]" by simp
  show ?thesis by (rule ece_in_unit_interval[OF len])
qed

text \<open>
  Claim C8. Permuting logits and labels by the same permutation \<open>p\<close> of the indices
  leaves the value of \<open>forward\<close> unchanged.
\<close>
theorem ece_permutation_invariant:
  assumes "length logits = length labels" and "mset p = mset [0..<length logits]"
  shows "forward (ECELoss_init n_bins) (map ((!) logits) p) (map ((!) labels) p)
           = forward (ECELoss_init n_bins) logits labels"
proof -
  have "length p = length logits"
    using mset_eq_length[OF assms(2)] by simp
  then have len: "length (map ((!) logits) p) = length (map ((!) labels) p)" by simp
  have "spec_ece n_bins (map ((!) logits) p) (map ((!) labels) p) = spec_ece n_bins logits labels"
    by (rule spec_ece_perm) (rule permuted_zip[OF assms])
  then show ?thesis
    unfolding forward_spec[OF len] forward_spec[OF assms(1)] by simp
qed

theorem ece_permutation_invariant_witness:
  "forward (ECELoss_init 15) [3, 0, -2] [1, 1, 0] = forward (ECELoss_init 15) [0, -2, 3] [1, 0, 1]"
proof -
  have len: "length [0, -2, 3 :: real] = length [1, 0, 1 :: real]" by simp
  have p: "mset [2, 0, 1 :: nat] = mset [0..<length [0, -2, 3 :: real]]"
    by (simp add: upt_conv_Cons eval_nat_numeral)
  show ?thesis
    using ece_permutation_invariant[OF len p, of 15] by (simp add: eval_nat_numeral)
qed

text \<open>
  Claim C9. On empty logits and labels, \<open>forward\<close> returns 0 and raises nothing: the mean
  of the empty mask is NaN, the test \<open>> 0\<close> fails on it, every bin is skipped and the
  accumulator keeps its initial value 0. This holds for any bins.
\<close>
theorem ece_empty_input:
  "mean [] = None \<and> \<not> fgt (mean []) 0 \<and> forward self [] [] = Inr (Some 0)"
  by (simp add: mean_def fgt_def forward_empty)

section \<open>Properties of the threshold search\<close>

lemma argmax_loop_first_max:
  assumes "length pre = i" "best_i < i" "pre ! best_i = best"
      and "\<forall>j < i. pre ! j \<le> best" "\<forall>j < best_i. pre ! j < best"
  shows "argmax_loop best_i best i xs < length (pre @ xs)
       \<and> (\<forall>j < length (pre @ xs). (pre @ xs) ! j \<le> (pre @ xs) ! argmax_loop best_i best i xs)
       \<and> (\<forall>j < argmax_loop best_i best i xs. (pre @ xs) ! j < (pre @ xs) ! argmax_loop best_i best i xs)"
  using assms
proof (induction xs arbitrary: pre i best_i best)
  case Nil
  then show ?case by simp
next
  case (Cons x xs)
  have app: "pre @ x # xs = (pre @ [x]) @ xs" by simp
  show ?case
  proof (cases "x > best")
    case True
    have "argmax_loop i x (Suc i) xs < length ((pre @ [x]) @ xs)
       \<and> (\<forall>j < length ((pre @ [x]) @ xs). ((pre @ [x]) @ xs) ! j \<le> ((pre @ [x]) @ xs) ! argmax_loop i x (Suc i) xs)
       \<and> (\<forall>j < argmax_loop i x (Suc i) xs. ((pre @ [x]) @ xs) ! j < ((pre @ [x]) @ xs) ! argmax_loop i x (Suc i) xs)"
    proof (rule Cons.IH)
      show "length (pre @ [x]) = Suc i" using Cons.prems(1) by simp
      show "i < Suc i" by simp
      show "(pre @ [x]) ! i = x" using Cons.prems(1) by (auto simp: nth_append)
      show "\<forall>j<Suc i. (pre @ [x]) ! j \<le> x"
        using Cons.prems(1,4) True by (auto simp: nth_append less_Suc_eq)
      show "\<forall>j<i. (pre @ [x]) ! j < x"
        using Cons.prems(1,4) True by (auto simp: nth_append)
    qed
    with True show ?thesis unfolding app by simp
  next
    case False
    have "argmax_loop best_i best (Suc i) xs < length ((pre @ [x]) @ xs)
       \<and> (\<forall>j < length ((pre @ [x]) @ xs). ((pre @ [x]) @ xs) ! j \<le> ((pre @ [x]) @ xs) ! argmax_loop best_i best (Suc i) xs)
       \<and> (\<forall>j < argmax_loop best_i best (Suc i) xs. ((pre @ [x]) @ xs) ! j < ((pre @ [x]) @ xs) ! argmax_loop best_i best (Suc i) xs)"
    proof (rule Cons.IH)
      show "length (pre @ [x]) = Suc i" using Cons.prems(1) by simp
      show "best_i < Suc i" using Cons.prems(2) by simp
      show "(pre @ [x]) ! best_i = best" using Cons.prems(1,2,3) by (simp add: nth_append)
      show "\<forall>j<Suc i. (pre @ [x]) ! j \<le> best"
        using Cons.prems(1,4) False by (auto simp: nth_append less_Suc_eq)
      show "\<forall>j<best_i. (pre @ [x]) ! j < best"
        using Cons.prems(1,2,5) by (auto simp: nth_append)
    qed
    with False show ?thesis unfolding app by simp
  qed
qed

lemma np_argmax_first_max:
  assumes "xs \<noteq> []"
  shows "\<exists>k. np_argmax xs = Inr k \<and> k < length xs
       \<and> (\<forall>j < length xs. xs ! j \<le> xs ! k) \<and> (\<forall>j < k. xs ! j < xs ! k)"
proof -
  from assms obtain x rest where xs: "xs = x # rest" by (cases xs) auto
  have "argmax_loop 0 x 1 rest < length ([x] @ rest)
       \<and> (\<forall>j < length ([x] @ rest). ([x] @ rest) ! j \<le> ([x] @ rest) ! argmax_loop 0 x 1 rest)
       \<and> (\<forall>j < argmax_loop 0 x 1 rest. ([x] @ rest) ! j < ([x] @ rest) ! argmax_loop 0 x 1 rest)"
    by (rule argmax_loop_first_max) simp_all
  then show ?thesis unfolding xs np_argmax_def by simp
qed

lemma thresholds_grid: "thresholds = map (\<lambda>i. real i / 1000) [0..<1000]"
  unfolding thresholds_def np_arange_def by simp

lemma collect_probs_nonempty:
  assumes "islice val_loader (batch_limit val_loader val_fraction) = Inr batches" "batches \<noteq> []"
  shows "collect_probs cf m val_loader val_fraction
       = Inr (concat (map (\<lambda>(inputs, label). map sigmoid (cf m inputs)) batches),
              concat (map (\<lambda>(inputs, label). label) batches))"
  using assms unfolding collect_probs_def np_concatenate_def by (simp add: Let_def)


lemma thresholds_length: "length thresholds = 1000"
  unfolding thresholds_grid by simp

lemma thresholds_nth: "j < 1000 \<Longrightarrow> thresholds ! j = real j / 1000"
  unfolding thresholds_grid by simp

text \<open>
  Claim C4. When the selection holds at least one batch, \<open>search_threshold\<close> returns a
  member \<open>t\<close> of the grid of the 1000 candidates \<open>0.000, 0.001, \<dots>, 0.999\<close>; the score of
  \<open>t\<close> is maximal on the grid, and \<open>t\<close> is the smallest candidate with that score. For a
  constant metric it returns 0.
\<close>
theorem search_threshold_first_argmax:
  assumes "islice val_loader (batch_limit val_loader val_fraction) = Inr batches"
      and "batches \<noteq> []"
      and "probs = concat (map (\<lambda>(inputs, label). map sigmoid (cf m inputs)) batches)"
      and "labels = concat (map (\<lambda>(inputs, label). label) batches)"
      and "score = (\<lambda>t. max_metric labels (to_labels probs t))"
  shows "thresholds = map (\<lambda>i. real i / 1000) [0..<1000]
       \<and> (\<exists>t. search_threshold cf m max_metric val_loader val_fraction = Inr t
            \<and> t \<in> set thresholds
            \<and> (\<forall>t' \<in> set thresholds. score t' \<le> score t)
            \<and> (\<forall>t' \<in> set thresholds. score t' = score t \<longrightarrow> t \<le> t')
            \<and> ((\<forall>ys ps. max_metric ys ps = c) \<longrightarrow> t = 0))"
proof -
  let ?scores = "map score thresholds"
  have ne: "?scores \<noteq> []" using thresholds_length by auto
  from np_argmax_first_max[OF ne] obtain k where
    k: "np_argmax ?scores = Inr k" "k < length ?scores"
       "\<forall>j < length ?scores. ?scores ! j \<le> ?scores ! k" "\<forall>j < k. ?scores ! j < ?scores ! k"
    by blast
  have k1000: "k < 1000" using k(2) thresholds_length by simp
  have len: "length thresholds = 1000" by (rule thresholds_length)
  have sc: "\<And>j. j < 1000 \<Longrightarrow> ?scores ! j = score (thresholds ! j)"
    using len by simp
  let ?t = "thresholds ! k"
  have res: "search_threshold cf m max_metric val_loader val_fraction = Inr ?t"
    unfolding search_threshold_def collect_probs_nonempty[OF assms(1,2)]
    using k(1) assms(3,4,5) by (simp add: Let_def)
  have mem: "?t \<in> set thresholds" using k1000 len by simp
  have maxi: "\<forall>t' \<in> set thresholds. score t' \<le> score ?t"
  proof
    fix t' assume "t' \<in> set thresholds"
    then obtain j where j: "j < 1000" "t' = thresholds ! j"
      using len by (auto simp: in_set_conv_nth)
    from k(3) j(1) len have "?scores ! j \<le> ?scores ! k" by simp
    then show "score t' \<le> score ?t" using sc[OF j(1)] sc[OF k1000] j(2) by simp
  qed
  have first: "\<forall>t' \<in> set thresholds. score t' = score ?t \<longrightarrow> ?t \<le> t'"
  proof (intro ballI impI)
    fix t' assume "t' \<in> set thresholds" and eq: "score t' = score ?t"
    then obtain j where j: "j < 1000" "t' = thresholds ! j"
      using len by (auto simp: in_set_conv_nth)
    have "\<not> j < k"
    proof
      assume "j < k"
      with k(4) have "?scores ! j < ?scores ! k" by blast
      then show False using sc[OF j(1)] sc[OF k1000] j(2) eq by simp
    qed
    then have "k \<le> j" by simp
    then have "real k / 1000 \<le> real j / 1000" by simp
    then show "?t \<le> t'" using thresholds_nth[OF j(1)] thresholds_nth[OF k1000] j(2) by simp
  qed
  have const: "(\<forall>ys ps. max_metric ys ps = c) \<longrightarrow> ?t = 0"
  proof
    assume c: "\<forall>ys ps. max_metric ys ps = c"
    have "k = 0"
    proof (rule ccontr)
      assume "k \<noteq> 0"
      then have "0 < k" by simp
      with k(4) have "?scores ! 0 < ?scores ! k" by blast
      then show False using sc[of 0] sc[OF k1000] c assms(5) by simp
    qed
    then show "?t = 0" using thresholds_nth[of 0] by simp
  qed
  show ?thesis using thresholds_grid res mem maxi first const by blast
qed

theorem search_threshold_first_argmax_witness:
  "search_threshold (\<lambda>m inputs. inputs) () (\<lambda>ys ps. 0) [([0], [1])] 1 = Inr 0
   \<and> search_threshold (\<lambda>m inputs. inputs) () (\<lambda>ys ps. - real_of_int (sum_list ps)) [([0], [1])] 1
       = Inr (501 / 1000)"
proof -
  have sel: "islice [([0::real], [1::real])] (batch_limit [([0::real], [1::real])] 1) = Inr [([0], [1])]"
    by (simp add: islice_def batch_limit_def py_int_def)
  have first: "search_threshold (\<lambda>m inputs. inputs) () (\<lambda>ys ps. 0) [([0], [1])] 1 = Inr 0"
    using search_threshold_first_argmax[OF sel, of _ "\<lambda>m inputs. inputs" "()" _ _ "\<lambda>ys ps. 0" 0,
        OF _ refl refl refl]
    by auto
  let ?score = "\<lambda>t::real. - real_of_int (sum_list (to_labels [1 / 2] t))"
  have sc: "\<And>t. ?score t = (if t \<le> 1 / 2 then - 1 else 0)"
    by (simp add: to_labels_def)
  from search_threshold_first_argmax[OF sel, of _ "\<lambda>m inputs. inputs" "()" _ _
      "\<lambda>ys ps. - real_of_int (sum_list ps)" 0, OF _ refl refl refl]
  obtain t where t:
    "search_threshold (\<lambda>m inputs. inputs) () (\<lambda>ys ps. - real_of_int (sum_list ps)) [([0], [1])] 1 = Inr t"
    "t \<in> set thresholds"
    "\<forall>t' \<in> set thresholds. ?score t' \<le> ?score t"
    "\<forall>t' \<in> set thresholds. ?score t' = ?score t \<longrightarrow> t \<le> t'"
    by (auto simp: sigmoid_0)
  have grid: "set thresholds = (\<lambda>i. real i / 1000) ` {0..<1000}"
    unfolding thresholds_grid by simp
  have mem: "501 / 1000 \<in> set thresholds"
    unfolding grid by (rule image_eqI[where x = 501]) simp_all
  from t(3) mem have "?score (501 / 1000) \<le> ?score t" by blast
  then have hi: "\<not> t \<le> 1 / 2" unfolding sc by (simp split: if_splits)
  then have "?score (501 / 1000) = ?score t" unfolding sc by simp
  with t(4) mem have le: "t \<le> 501 / 1000" by blast
  from t(2) obtain k where k: "k < 1000" "t = real k / 1000" unfolding grid by auto
  from hi le have "500 < k" "k \<le> 501" unfolding k(2) by simp_all
  then have "k = 501" by simp
  with k(2) t(1) first show ?thesis by simp
qed

section \<open>Properties of the temperature calibrator\<close>

lemma changes_only_refl: "changes_only t s s"
  unfolding changes_only_def by simp

lemma changes_only_trans:
  assumes "changes_only t s s1" "changes_only t s1 s2"
  shows "changes_only t s s2"
  using assms unfolding changes_only_def by (metis (no_types, lifting) less_le_trans order_trans)

lemma alloc_effect:
  assumes "alloc t0 s = (r, s')"
  shows "r = fresh s \<and> fresh s' = Suc (fresh s) \<and> store s' r = t0
       \<and> (\<forall>a. a \<noteq> r \<longrightarrow> store s' a = store s a) \<and> grad_enabled s' = grad_enabled s"
  using assms unfolding alloc_def by auto

lemma alloc_changes_only:
  assumes "alloc t0 s = (r, s')"
  shows "changes_only t s s'"
  using alloc_effect[OF assms] unfolding changes_only_def by auto

lemma torch_div_alloc:
  assumes "torch_div a b s = Inr (r, s')"
  shows "\<exists>d. alloc (result_of d (recorded s [a, b])) s = (r, s')"
  using assms unfolding torch_div_def by (auto split: sum.splits)

lemma nll_criterion_alloc:
  assumes "nll_criterion a labels s = Inr (r, s')"
  shows "\<exists>v. alloc (result_of [v] (recorded s [a])) s = (r, s')"
  using assms unfolding nll_criterion_def by (auto split: sum.splits)

lemma zero_grad_changes_only: "changes_only t s (zero_grad [t] s)"
  unfolding changes_only_def zero_grad_def by simp

lemma write_params_changes_only: "changes_only t s (write_params [t] vs s)"
  by (cases vs) (simp_all add: changes_only_def)

lemma backward_changes_only:
  assumes "backward ag loss s = Inr s'" "deps s loss \<subseteq> {t}"
  shows "changes_only t s s'"
proof -
  from assms(1) have s': "s' = s\<lparr>store := (\<lambda>a. if a \<in> deps s loss
        then accumulate (ag s loss a) (store s a) else store s a)\<rparr>"
    unfolding backward_def by (auto split: if_splits)
  show ?thesis
    unfolding changes_only_def s' using assms(2) by (auto simp: accumulate_def)
qed

lemma ready_preserved:
  assumes "ready t l s" "changes_only t s s'"
  shows "ready t l s'"
  using assms unfolding ready_def changes_only_def deps_def by auto

lemma deps_leaf: "graph (store s t) = {} \<Longrightarrow> deps s t \<subseteq> {t}"
  unfolding deps_def by simp

lemma deps_result: "store s r = result_of d g \<Longrightarrow> deps s r = g"
  unfolding deps_def result_of_def by simp

lemma eval_closure_changes_only:
  assumes "ready (temperature self) logits s"
  shows "changes_only (temperature self) s
           (snd (eval_closure ag self logits labels [temperature self] s))"
proof -
  let ?t = "temperature self"
  let ?s1 = "zero_grad [?t] s"
  have c1: "changes_only ?t s ?s1" by (rule zero_grad_changes_only)
  have r1: "ready ?t logits ?s1" by (rule ready_preserved[OF assms c1])
  show ?thesis
  proof (cases "temperature_scale self logits ?s1")
    case (Inl e)
    then show ?thesis unfolding eval_closure_def Let_def using c1 by simp
  next
    case (Inr p)
    obtain scaled s2 where p: "p = (scaled, s2)" by (cases p)
    from Inr p have "torch_div logits ?t ?s1 = Inr (scaled, s2)"
      unfolding temperature_scale_def by simp
    from torch_div_alloc[OF this] obtain d where
      a2: "alloc (result_of d (recorded ?s1 [logits, ?t])) ?s1 = (scaled, s2)" ..
    have c2: "changes_only ?t ?s1 s2" by (rule alloc_changes_only[OF a2])
    have c02: "changes_only ?t s s2" by (rule changes_only_trans[OF c1 c2])
    have rec: "recorded ?s1 [logits, ?t] \<subseteq> {?t}"
      using r1 unfolding ready_def recorded_def by (auto dest: deps_leaf)
    have "store s2 scaled = result_of d (recorded ?s1 [logits, ?t])"
      using alloc_effect[OF a2] by blast
    from deps_result[OF this] rec have sc: "deps s2 scaled \<subseteq> {?t}" by simp
    show ?thesis
    proof (cases "nll_criterion scaled labels s2")
      case (Inl e)
      then show ?thesis unfolding eval_closure_def Let_def using Inr p c02 by simp
    next
      case nll: (Inr q)
      obtain loss s3 where q: "q = (loss, s3)" by (cases q)
      from nll_criterion_alloc[OF nll[unfolded q]] obtain v where
        a3: "alloc (result_of [v] (recorded s2 [scaled])) s2 = (loss, s3)" ..
      have c3: "changes_only ?t s2 s3" by (rule alloc_changes_only[OF a3])
      have c03: "changes_only ?t s s3" by (rule changes_only_trans[OF c02 c3])
      have "recorded s2 [scaled] \<subseteq> {?t}"
        using sc unfolding recorded_def by auto
      moreover have "store s3 loss = result_of [v] (recorded s2 [scaled])"
        using alloc_effect[OF a3] by blast
      ultimately have dl: "deps s3 loss \<subseteq> {?t}"
        by (simp add: deps_result)
      show ?thesis
      proof (cases "backward ag loss s3")
        case (Inl e)
        then show ?thesis unfolding eval_closure_def Let_def using Inr p nll q c03 by simp
      next
        case bw: (Inr s4)
        have "changes_only ?t s3 s4" by (rule backward_changes_only[OF bw dl])
        then have "changes_only ?t s s4" by (rule changes_only_trans[OF c03])
        then show ?thesis unfolding eval_closure_def Let_def using Inr p nll q bw by simp
      qed
    qed
  qed
qed

lemma restore_grad_mode:
  assumes "changes_only t (s\<lparr>grad_enabled := b\<rparr>) s'"
  shows "changes_only t s (s'\<lparr>grad_enabled := grad_enabled s\<rparr>)"
  using assms unfolding changes_only_def by simp

lemma lbfgs_iterate_changes_only:
  assumes "\<And>s. ready t l s \<Longrightarrow> changes_only t s (snd (closure s))"
      and "ready t l s"
  shows "changes_only t s (snd (lbfgs_iterate rule lr closure [t] n seen s))"
  using assms(2)
proof (induction n arbitrary: seen s)
  case 0
  then show ?case by (simp add: changes_only_refl)
next
  case (Suc n)
  let ?on = "s\<lparr>grad_enabled := True\<rparr>"
  obtain res s1' where c': "closure ?on = (res, s1')" by (cases "closure ?on")
  define s1 where "s1 = s1'\<lparr>grad_enabled := grad_enabled s\<rparr>"
  have c: "with_grad_enabled closure s = (res, s1)"
    unfolding with_grad_enabled_def s1_def using c' by simp
  have "deps ?on l = deps s l" unfolding deps_def by simp
  then have "ready t l ?on" using Suc.prems unfolding ready_def by simp
  from assms(1)[OF this] have "changes_only t ?on s1'" using c' by simp
  then have c1: "changes_only t s s1" unfolding s1_def by (rule restore_grad_mode)
  have r1: "ready t l s1" by (rule ready_preserved[OF Suc.prems c1])
  show ?case
  proof (cases res)
    case (Inl e)
    then show ?thesis using c c1 by simp
  next
    case (Inr loss)
    show ?thesis
    proof (cases "rule lr (seen @ [observe loss [t] s1])")
      case None
      then show ?thesis using c Inr c1 by (simp add: Let_def)
    next
      case (Some vs)
      let ?s2 = "write_params [t] vs s1"
      have c2: "changes_only t s1 ?s2" by (rule write_params_changes_only)
      have r2: "ready t l ?s2" by (rule ready_preserved[OF r1 c2])
      have "changes_only t ?s2 (snd (lbfgs_iterate rule lr closure [t] n (seen @ [observe loss [t] s1]) ?s2))"
        by (rule Suc.IH[OF r2])
      then have "changes_only t s (snd (lbfgs_iterate rule lr closure [t] n (seen @ [observe loss [t] s1]) ?s2))"
        using c1 c2 by (blast intro: changes_only_trans)
      then show ?thesis using c Inr Some by (simp add: Let_def)
    qed
  qed
qed


lemma temperature_scale_changes_only:
  assumes "temperature_scale self logits s = Inr (r, s')"
  shows "changes_only t s s'"
proof -
  from assms have "torch_div logits (temperature self) s = Inr (r, s')"
    unfolding temperature_scale_def .
  from torch_div_alloc[OF this] obtain d where
    "alloc (result_of d (recorded s [logits, temperature self])) s = (r, s')" ..
  then show ?thesis by (rule alloc_changes_only)
qed

lemma nll_criterion_changes_only:
  assumes "nll_criterion a labels s = Inr (r, s')"
  shows "changes_only t s s'"
proof -
  from nll_criterion_alloc[OF assms] obtain v where
    "alloc (result_of [v] (recorded s [a])) s = (r, s')" ..
  then show ?thesis by (rule alloc_changes_only)
qed

lemma after_report_changes_only:
  "changes_only t s (snd (after_report self logits labels s))"
proof (cases "temperature_scale self logits s")
  case (Inl e)
  then show ?thesis unfolding after_report_def by (simp add: changes_only_refl)
next
  case (Inr p)
  obtain scaled s1 where p: "p = (scaled, s1)" by (cases p)
  have c1: "changes_only t s s1"
    by (rule temperature_scale_changes_only[OF Inr[unfolded p]])
  show ?thesis
  proof (cases "nll_criterion scaled labels s1")
    case (Inl e)
    then show ?thesis unfolding after_report_def using Inr p c1 by simp
  next
    case nll: (Inr q)
    obtain l s2 where q: "q = (l, s2)" by (cases q)
    have "changes_only t s1 s2" by (rule nll_criterion_changes_only[OF nll[unfolded q]])
    with c1 have c2: "changes_only t s s2" by (rule changes_only_trans)
    show ?thesis
    proof (cases "temperature_scale self logits s2")
      case (Inl e)
      then show ?thesis unfolding after_report_def using Inr p nll q c2 by simp
    next
      case sc: (Inr u)
      obtain scaled' s3 where u: "u = (scaled', s3)" by (cases u)
      have "changes_only t s2 s3" by (rule temperature_scale_changes_only[OF sc[unfolded u]])
      with c2 have "changes_only t s s3" by (rule changes_only_trans)
      then show ?thesis unfolding after_report_def using Inr p nll q sc u by simp
    qed
  qed
qed

lemma optimize_changes_only:
  assumes "ready (temperature self) logits s"
  shows "changes_only (temperature self) s (snd (optimize rule ag self logits labels s))"
proof (cases "nll_criterion logits labels s")
  case (Inl e)
  then show ?thesis unfolding optimize_def by (simp add: changes_only_refl)
next
  case (Inr p)
  let ?t = "temperature self"
  obtain nll s1 where p: "p = (nll, s1)" by (cases p)
  have c1: "changes_only ?t s s1" by (rule nll_criterion_changes_only[OF Inr[unfolded p]])
  have r1: "ready ?t logits s1" by (rule ready_preserved[OF assms c1])
  show ?thesis
  proof (cases "ece_criterion logits labels s1")
    case (Some e)
    then show ?thesis unfolding optimize_def using Inr p c1 by simp
  next
    case None
    obtain raised s2 where o: "lbfgs_step rule [?t] (1 / 100) 50
        (eval_closure ag self logits labels [?t]) s1 = (raised, s2)"
      by (cases "lbfgs_step rule [?t] (1 / 100) 50 (eval_closure ag self logits labels [?t]) s1")
    have "changes_only ?t s1 (snd (lbfgs_iterate rule (1 / 100)
        (eval_closure ag self logits labels [?t]) [?t] 50 [] s1))"
      by (rule lbfgs_iterate_changes_only[where l = logits, OF eval_closure_changes_only r1])
    then have "changes_only ?t s1 s2" using o unfolding lbfgs_step_def by simp
    with c1 have c2: "changes_only ?t s s2" by (rule changes_only_trans)
    show ?thesis
    proof (cases raised)
      case (Some e)
      then show ?thesis unfolding optimize_def using Inr p None o c2 by (simp add: Let_def)
    next
      case no: None
      obtain r s3 where a: "after_report self logits labels s2 = (r, s3)"
        by (cases "after_report self logits labels s2")
      have "changes_only ?t s2 s3" using after_report_changes_only[of ?t s2 self logits labels] a by simp
      with c2 have "changes_only ?t s s3" by (rule changes_only_trans)
      then show ?thesis unfolding optimize_def using Inr p None o no a
        by (simp add: Let_def split: option.split)
    qed
  qed
qed

lemma collect_logits_changes_only:
  "changes_only t s (snd (collect_logits self bs s))"
proof (induction bs arbitrary: s)
  case Nil
  then show ?case by (simp add: changes_only_refl)
next
  case (Cons b bs)
  obtain out s1 where f: "model_forward (model self) (fst b) s = (out, s1)"
    by (cases "model_forward (model self) (fst b) s")
  obtain l s2 where d: "detach out s1 = (l, s2)" by (cases "detach out s1")
  obtain rest s3 where r: "collect_logits self bs s2 = (rest, s3)"
    by (cases "collect_logits self bs s2")
  have "changes_only t s s1" using f unfolding model_forward_def by (rule alloc_changes_only)
  moreover have "changes_only t s1 s2" using d unfolding detach_def by (rule alloc_changes_only)
  moreover have "changes_only t s2 s3" using Cons.IH[of s2] r by simp
  ultimately have "changes_only t s s3" by (blast intro: changes_only_trans)
  then show ?case using f d r by simp
qed

lemma calibrate_changes_only:
  assumes "temperature self < fresh s" "graph (store s (temperature self)) = {}"
  shows "changes_only (temperature self) s (snd (calibrate rule ag self val_loader val_fraction s))"
proof (cases "islice val_loader (batch_limit val_loader val_fraction)")
  case (Inl e)
  then show ?thesis unfolding calibrate_def Let_def
    by (simp add: changes_only_refl)
next
  case (Inr batches)
  let ?t = "temperature self"
  let ?s0 = "s\<lparr>grad_enabled := False\<rparr>"
  obtain logits_list s1 where c: "collect_logits self batches ?s0 = (logits_list, s1)"
    by (cases "collect_logits self batches ?s0")
  have c1: "changes_only ?t ?s0 s1" using collect_logits_changes_only[of ?t ?s0 self batches] c by simp
  show ?thesis
  proof (cases "torch_cat_tensors logits_list s1")
    case (Inl e)
    then show ?thesis unfolding calibrate_def Let_def using Inr c
      by (simp add: restore_grad_mode[OF c1])
  next
    case cat: (Inr p)
    obtain logits s2 where p: "p = (logits, s2)" by (cases p)
    from cat p have a: "alloc (result_of (concat (map (\<lambda>a. data (store s1 a)) logits_list))
        (recorded s1 logits_list)) s1 = (logits, s2)"
      unfolding torch_cat_tensors_def by (simp split: if_splits)
    have "changes_only ?t s1 s2" using a by (rule alloc_changes_only)
    with c1 have c2: "changes_only ?t ?s0 s2" by (rule changes_only_trans)
    let ?s3 = "s2\<lparr>grad_enabled := grad_enabled s\<rparr>"
    have c3: "changes_only ?t s ?s3" by (rule restore_grad_mode[OF c2])
    show ?thesis
    proof (cases "torch_cat (map snd batches)")
      case (Inl e)
      then show ?thesis unfolding calibrate_def Let_def using Inr c cat p c3 by simp
    next
      case lab: (Inr labels)
      have off: "grad_enabled s1 = False" using c1 unfolding changes_only_def by simp
      have eff: "logits = fresh s1 \<and> fresh s2 = Suc (fresh s1)
          \<and> store s2 logits = result_of (concat (map (\<lambda>a. data (store s1 a)) logits_list)) (recorded s1 logits_list)"
        using alloc_effect[OF a] by blast
      have st: "store s2 logits = result_of (concat (map (\<lambda>a. data (store s1 a)) logits_list)) (recorded s1 logits_list)"
        using eff by blast
      have "deps s2 logits = recorded s1 logits_list"
        by (rule deps_result[OF st])
      then have "deps s2 logits = {}"
        using off unfolding recorded_def by simp
      moreover have "deps ?s3 logits = deps s2 logits"
        unfolding deps_def by simp
      ultimately have d: "deps ?s3 logits = {}" by simp
      have "ready ?t logits ?s3"
        unfolding ready_def
        using assms c3 d eff unfolding changes_only_def by auto
      from optimize_changes_only[OF this]
      have "changes_only ?t ?s3 (snd (optimize rule ag self logits labels ?s3))" .
      with c3 have "changes_only ?t s (snd (optimize rule ag self logits labels ?s3))"
        by (rule changes_only_trans)
      then show ?thesis unfolding calibrate_def Let_def using Inr c cat p lab by simp
    qed
  qed
qed

text \<open>
  Claim C3. For every logits tensor and every temperature, \<open>temperature_scale\<close> returns
  a new tensor of the shape of the logits whose elements are the quotients of the logits
  by the temperature (infinite or NaN where the float quotient is, as at temperature 0).
  The call writes nothing else: every tensor other than the new one, the logits and the
  calibrator's temperature among them, is as before, and so is the gradient mode.
  With the gradient mode on, the quotient stays differentiable: autograd records for it
  what it records for the logits and the temperature.
\<close>
theorem temperature_scale_quotient:
  assumes "data (store s (temperature self)) = [T]"
      and "logits < fresh s" and "temperature self < fresh s"
  shows "\<exists>r s'. temperature_scale self logits s = Inr (r, s')
       \<and> data (store s' r) = map (\<lambda>x. xdiv x T) (data (store s logits))
       \<and> length (data (store s' r)) = length (data (store s logits))
       \<and> graph (store s' r) = recorded s [logits, temperature self]
       \<and> r = fresh s
       \<and> (\<forall>a. a \<noteq> r \<longrightarrow> store s' a = store s a)
       \<and> store s' logits = store s logits
       \<and> store s' (temperature self) = store s (temperature self)
       \<and> grad_enabled s' = grad_enabled s"
proof -
  let ?d = "map (\<lambda>x. xdiv x T) (data (store s logits))"
  have b: "broadcast2 xdiv (data (store s logits)) (data (store s (temperature self))) = Inr ?d"
    unfolding broadcast2_def assms(1) by simp
  obtain r s' where a: "alloc (result_of ?d (recorded s [logits, temperature self])) s = (r, s')"
    by (cases "alloc (result_of ?d (recorded s [logits, temperature self])) s")
  have ts: "temperature_scale self logits s = Inr (r, s')"
    unfolding temperature_scale_def torch_div_def b using a by simp
  have e: "r = fresh s" "store s' r = result_of ?d (recorded s [logits, temperature self])"
    "\<forall>a. a \<noteq> r \<longrightarrow> store s' a = store s a" "grad_enabled s' = grad_enabled s"
    using alloc_effect[OF a] by blast+
  have "logits \<noteq> r" "temperature self \<noteq> r" using e(1) assms(2,3) by simp_all
  then have "store s' logits = store s logits" "store s' (temperature self) = store s (temperature self)"
    using e(3) by blast+
  then show ?thesis using ts e by (simp add: result_of_def)
qed

theorem temperature_scale_quotient_witness:
  "(let s = \<lparr> store = (\<lambda>a. if a = 0 then \<lparr> data = [Finite 0], requires_grad = True, grad = None, graph = {} \<rparr>
                              else \<lparr> data = [Finite 3, Finite (- 6), Finite 0], requires_grad = False,
                                     grad = None, graph = {} \<rparr>),
                fresh = 2, grad_enabled = True \<rparr>;
        self = \<lparr> model = \<lparr> parameters = [], forward_fn = (\<lambda>ps inputs. inputs) \<rparr>, temperature = 0 \<rparr>
    in \<exists>s'. temperature_scale self 1 s = Inr (2, s')
          \<and> data (store s' 2) = [PosInf, NegInf, NaN]
          \<and> graph (store s' 2) = {0}
          \<and> store s' 1 = store s 1 \<and> store s' 0 = store s 0)
   \<and> (let s = \<lparr> store = (\<lambda>a. if a = 0 then \<lparr> data = [Finite 1.5], requires_grad = True, grad = None, graph = {} \<rparr>
                              else \<lparr> data = [Finite 3, Finite (- 6), Finite 0], requires_grad = False,
                                     grad = None, graph = {} \<rparr>),
                fresh = 2, grad_enabled = False \<rparr>;
        self = \<lparr> model = \<lparr> parameters = [], forward_fn = (\<lambda>ps inputs. inputs) \<rparr>, temperature = 0 \<rparr>
    in \<exists>s'. temperature_scale self 1 s = Inr (2, s')
          \<and> data (store s' 2) = [Finite 2, Finite (- 4), Finite 0]
          \<and> graph (store s' 2) = {}
          \<and> store s' 1 = store s 1 \<and> store s' 0 = store s 0)"
proof -
  let ?L = "\<lparr> data = [Finite 3, Finite (- 6), Finite 0], requires_grad = False, grad = None, graph = {} \<rparr>"
  let ?s = "\<lparr> store = (\<lambda>a. if a = 0 then \<lparr> data = [Finite 0], requires_grad = True, grad = None, graph = {} \<rparr>
                              else ?L),
                fresh = 2, grad_enabled = True \<rparr>"
  let ?u = "\<lparr> store = (\<lambda>a. if a = 0 then \<lparr> data = [Finite 1.5], requires_grad = True, grad = None, graph = {} \<rparr>
                              else ?L),
                fresh = 2, grad_enabled = False \<rparr>"
  let ?self = "\<lparr> model = \<lparr> parameters = [], forward_fn = (\<lambda>ps inputs. inputs :: xfloat list) \<rparr>, temperature = 0 \<rparr>"
  have 1: "data (store ?s (temperature ?self)) = [Finite 0]" by simp
  have 2: "(1::nat) < fresh ?s" by simp
  have 3: "temperature ?self < fresh ?s" by simp
  have 4: "data (store ?u (temperature ?self)) = [Finite 1.5]" by simp
  have 5: "(1::nat) < fresh ?u" by simp
  have 6: "temperature ?self < fresh ?u" by simp
  from temperature_scale_quotient[OF 1 2 3] have a: "\<exists>s'. temperature_scale ?self 1 ?s = Inr (2, s')
          \<and> data (store s' 2) = [PosInf, NegInf, NaN]
          \<and> graph (store s' 2) = {0}
          \<and> store s' 1 = store ?s 1 \<and> store s' 0 = store ?s 0"
    by (auto simp: recorded_def deps_def)
  from temperature_scale_quotient[OF 4 5 6] have b: "\<exists>s'. temperature_scale ?self 1 ?u = Inr (2, s')
          \<and> data (store s' 2) = [Finite 2, Finite (- 4), Finite 0]
          \<and> graph (store s' 2) = {}
          \<and> store s' 1 = store ?u 1 \<and> store s' 0 = store ?u 0"
    by (auto simp: recorded_def deps_def)
  from a b show ?thesis unfolding Let_def by blast
qed

lemma batch_limit_empty: "batch_limit [] val_fraction = 0"
  by (simp add: batch_limit_def py_int_def)

lemma islice_zero:
  assumes "val_loader = [] \<or> batch_limit val_loader val_fraction = 0"
  shows "islice val_loader (batch_limit val_loader val_fraction) = Inr []"
  using assms by (auto simp: islice_def batch_limit_empty)

text \<open>
  Claim C5. When the selected validation subset has no batch (the loader is empty or
  \<open>int(len(val_loader) * val_fraction)\<close> is 0), \<open>calibrate\<close> and \<open>search_threshold\<close> raise
  the error of concatenating an empty list; \<open>calibrate\<close> returns no temperature and
  leaves the state, the calibrator's temperature in it, as it was.
\<close>
theorem empty_selection_raises:
  assumes "val_loader = [] \<or> batch_limit val_loader val_fraction = 0"
  shows "calibrate rule ag self val_loader val_fraction s = (Inl EmptyConcat, s)
       \<and> search_threshold cf m max_metric val_loader val_fraction = Inl EmptyConcat"
  unfolding calibrate_def search_threshold_def collect_probs_def
    islice_zero[OF assms]
  by (simp add: torch_cat_tensors_def np_concatenate_def)

theorem empty_selection_raises_witness:
  "(let s = \<lparr> store = (\<lambda>a. \<lparr> data = [Finite 1.5], requires_grad = True, grad = None, graph = {} \<rparr>),
                fresh = 1, grad_enabled = True \<rparr>;
        self = \<lparr> model = \<lparr> parameters = [], forward_fn = (\<lambda>ps inputs. inputs) \<rparr>, temperature = 0 \<rparr>
    in calibrate (\<lambda>lr seen. None) (\<lambda>s loss a. [Finite 0]) self
         [([Finite 2], [1]), ([Finite (- 1)], [0])] (1 / 4) s = (Inl EmptyConcat, s))
   \<and> search_threshold (\<lambda>m inputs. inputs) () (\<lambda>ys ps. 0) [([2], [1]), ([-1], [0])] (1 / 4)
     = Inl EmptyConcat"
proof -
  have a: "[([Finite 2], [1::real]), ([Finite (- 1)], [0])] = []
      \<or> batch_limit [([Finite 2], [1::real]), ([Finite (- 1)], [0])] (1 / 4) = 0"
    by (simp add: batch_limit_def py_int_def)
  have b: "[([2::real], [1::real]), ([-1], [0])] = [] \<or> batch_limit [([2::real], [1::real]), ([-1], [0])] (1 / 4) = 0"
    by (simp add: batch_limit_def py_int_def)
  show ?thesis
    unfolding Let_def
    using empty_selection_raises[OF a, THEN conjunct1] empty_selection_raises[OF b, THEN conjunct2]
    by simp
qed

text \<open>
  Claim C10. Let the temperature be a leaf tensor, as the constructor creates it, and not
  one of the base model's parameters. Whatever \<open>calibrate\<close> returns or raises, the
  parameters of the base model are afterwards what they were, elements and gradients;
  so is every tensor that existed before the call, except the temperature; the
  temperature is still a leaf, and the gradient mode is restored. The logits are
  collected with the gradient mode off and detached, so that \<open>backward\<close> reaches the
  temperature only, and the optimizer writes the tensors of its list, which holds
  the temperature only.
\<close>
theorem calibrate_frame:
  assumes "temperature self < fresh s"
      and "graph (store s (temperature self)) = {}"
      and "\<forall>p \<in> set (parameters (model self)). p < fresh s \<and> p \<noteq> temperature self"
  shows "(\<forall>p \<in> set (parameters (model self)).
            store (snd (calibrate rule ag self val_loader val_fraction s)) p = store s p)
       \<and> (\<forall>a < fresh s. a \<noteq> temperature self \<longrightarrow>
            store (snd (calibrate rule ag self val_loader val_fraction s)) a = store s a)
       \<and> graph (store (snd (calibrate rule ag self val_loader val_fraction s)) (temperature self)) = {}
       \<and> requires_grad (store (snd (calibrate rule ag self val_loader val_fraction s)) (temperature self))
           = requires_grad (store s (temperature self))
       \<and> grad_enabled (snd (calibrate rule ag self val_loader val_fraction s)) = grad_enabled s"
  using calibrate_changes_only[OF assms(1,2), of rule ag val_loader val_fraction] assms
  unfolding changes_only_def by auto

theorem calibrate_frame_witness:
  "(let s0 = \<lparr> store = (\<lambda>a. \<lparr> data = [Finite 2], requires_grad = True, grad = None, graph = {} \<rparr>),
                 fresh = 1, grad_enabled = True \<rparr>;
        m = \<lparr> parameters = [0], forward_fn = (\<lambda>ps inputs. map (xmul (hd (hd ps))) inputs) \<rparr>;
        (self, s) = BinaryTemperatureScaling_init m s0;
        s' = snd (calibrate (\<lambda>lr seen. if length seen = 1 then Some [[Finite 1]] else None)
                            (\<lambda>s loss a. [Finite 1]) self
                            [([Finite 1, Finite (- 1)], [1, 0])] 1 s)
    in store s' 0 = store s 0 \<and> grad_enabled s' = True
       \<and> data (store s 1) = [Finite 1.5] \<and> data (store s' 1) = [Finite 1]
       \<and> grad (store s' 1) = Some [Finite 1])"
proof -
  let ?s0 = "\<lparr> store = (\<lambda>a. \<lparr> data = [Finite 2], requires_grad = True, grad = None, graph = {} \<rparr>),
                 fresh = 1, grad_enabled = True \<rparr>"
  let ?m = "\<lparr> parameters = [0], forward_fn = (\<lambda>ps inputs. map (xmul (hd (hd ps))) inputs) \<rparr>"
  let ?rule = "\<lambda>(lr::real) (seen::observation list). if length seen = 1 then Some [[Finite 1]] else None"
  let ?ag = "\<lambda>(s::state) (loss::addr) (a::addr). [Finite 1]"
  obtain self s where i: "BinaryTemperatureScaling_init ?m ?s0 = (self, s)"
    by (cases "BinaryTemperatureScaling_init ?m ?s0")
  then have f: "temperature self = 1" "fresh s = 2" "parameters (model self) = [0]"
    "graph (store s 1) = {}" "grad_enabled s = True" "data (store s 1) = [Finite 1.5]"
    unfolding BinaryTemperatureScaling_init_def alloc_def by auto
  have 1: "temperature self < fresh s" using f by simp
  have 2: "graph (store s (temperature self)) = {}" using f by simp
  have 3: "\<forall>p \<in> set (parameters (model self)). p < fresh s \<and> p \<noteq> temperature self"
    using f by simp
  have run: "(let (self, s) = BinaryTemperatureScaling_init ?m ?s0;
                  s' = snd (calibrate ?rule ?ag self [([Finite 1, Finite (- 1)], [1, 0])] 1 s)
              in data (store s' 1) = [Finite 1] \<and> grad (store s' 1) = Some [Finite 1])"
    by (simp add: BinaryTemperatureScaling_init_def alloc_def calibrate_def islice_def
        batch_limit_def py_int_def model_forward_def detach_def result_of_def recorded_def deps_def
        torch_cat_tensors_def torch_cat_def optimize_def nll_criterion_def nll_value_def
        ece_criterion_def lbfgs_step_def with_grad_enabled_def eval_closure_def zero_grad_def
        temperature_scale_def torch_div_def broadcast2_def backward_def accumulate_def observe_def
        after_report_def item_def forward_spec Let_def eval_nat_numeral)
  from calibrate_frame[OF 1 2 3, of ?rule ?ag "[([Finite 1, Finite (- 1)], [1, 0])]" 1] f run
  show ?thesis
    unfolding Let_def i by simp
qed

text \<open>
  Claim C6. \<open>to_labels\<close> maps each probability \<open>p\<close> to 1 if \<open>p \<ge> threshold\<close> and to 0
  otherwise; on \<open>[0.1, 0.4, 0.6, 0.9]\<close> with threshold 0.5 it returns \<open>[0, 0, 1, 1]\<close>.
\<close>
theorem to_labels_threshold:
  "length (to_labels pos_probs threshold) = length pos_probs
   \<and> (\<forall>i < length pos_probs.
         to_labels pos_probs threshold ! i = (if pos_probs ! i \<ge> threshold then 1 else 0))
   \<and> to_labels [0.1, 0.4, 0.6, 0.9] 0.5 = [0, 0, 1, 1]"
  unfolding to_labels_def by simp

theorem to_labels_threshold_witness:
  "to_labels [0.2, 0.7, 0.3] 0.3 ! 2 = 1 \<and> to_labels [0.2, 0.7, 0.3] 0.3 ! 0 = 0"
  using to_labels_threshold[of "[0.2, 0.7, 0.3]" "0.3"] by simp

end
